theory Spec2Isabelle
  imports Main "HOL-Library.Word"
begin

unbundle bit_operations_syntax

section \<open>Data model (unixsock.go)\<close>

type_synonym byte = "8 word"

text \<open>
  \<open>Args\<close> is Go's \<open>map[string]interface{}\<close>. The dynamically typed values are a type
  parameter \<open>'v\<close>; a nil map is \<open>None\<close>, the empty map \<open>Args{}\<close> is \<open>Some Map.empty\<close>.
\<close>

type_synonym 'v Args = "(string \<rightharpoonup> 'v) option"

definition STATUS_OK :: string where
  "STATUS_OK = ''success''"

definition STATUS_FAIL :: string where
  "STATUS_FAIL = ''failure''"

record Response =
  Status :: string
  Error :: string
  Payload :: string

text \<open>
  The struct \<open>communicator\<close>. The field \<open>Response\<close> is a pointer (\<open>None\<close> is nil); no
  function of the repository writes through it, so the pointee is kept by value. The
  field \<open>conn\<close> is a reference to the connection: the connection's state is threaded
  through \<open>Send\<close> and \<open>Receive\<close> as a separate argument.
\<close>

record 'v communicator =
  Cmd :: string
  Args :: "'v Args"
  Response :: "Response option"
  Respond :: bool
  Close :: bool
  maxLength :: int
  timeout :: int

section \<open>Environment: the connection, the byte order, the JSON library\<close>

text \<open>
  A \<open>net.Conn\<close> on a UNIX stream socket, seen from one end. \<open>rx\<close> holds the bytes on
  their way to this end, in their order and in the groups in which they become
  available to it: a \<open>Read\<close> finds the first group only and returns as many of its bytes
  as fit the buffer, so it may return fewer bytes than the buffer holds; what it leaves
  of the group is found by the next \<open>Read\<close>, and the groups behind become available
  after that. \<open>tx\<close> is the list of the slices this end has written and the peer has not
  read yet. A stream socket keeps no boundaries between writes: \<open>peer_view\<close> below hands
  the written bytes to the other end as one sequence, cut only by what the transport
  holds at a time. A \<open>Read\<close> with nothing to read fails: with \<open>EOF\<close> when the peer has
  closed, with a timeout otherwise (the call waits until the deadline set by
  \<open>SetDeadline\<close>). There is no clock for input and output here: \<open>SetDeadline\<close> itself is
  not represented, and neither is a deadline that has passed when a call starts, as with
  a timeout of zero or less. A \<open>Read\<close> into an empty buffer returns \<open>(0, nil)\<close> at once.
\<close>

datatype ioerr = EOF | ErrClosed | ErrPipe | ErrTimeout

record netconn =
  rx :: "byte list list"
  tx :: "byte list list"
  closed :: bool
  peer_closed :: bool

text \<open>\<open>conn_Read buf c\<close> is \<open>n, err := c.Read(buf)\<close>; it returns \<open>n\<close>, \<open>err\<close>, the buffer
  after the call and the connection after the call.\<close>

definition conn_Read :: "byte list \<Rightarrow> netconn \<Rightarrow> nat \<times> ioerr option \<times> byte list \<times> netconn" where
  "conn_Read buf c =
     (if closed c then (0, Some ErrClosed, buf, c)
      else if buf = [] then (0, None, buf, c)
      else (case dropWhile (\<lambda>ch. ch = []) (rx c) of
              [] \<Rightarrow> (0, Some (if peer_closed c then EOF else ErrTimeout), buf, c\<lparr>rx := []\<rparr>)
            | ch # rest \<Rightarrow>
                (let got = take (length buf) ch; left = drop (length buf) ch
                 in (length got, None, got @ drop (length got) buf,
                     c\<lparr>rx := (if left = [] then rest else left # rest)\<rparr>))))"

text \<open>\<open>conn_Write b c\<close> is \<open>n, err := c.Write(b)\<close>: the slice joins the written slices. A
  \<open>Write\<close> on a connection open at both ends is taken to complete; how much of what
  is written the peer finds at a time is settled in \<open>peer_view\<close>.\<close>

definition conn_Write :: "byte list \<Rightarrow> netconn \<Rightarrow> nat \<times> ioerr option \<times> netconn" where
  "conn_Write b c =
     (if closed c then (0, Some ErrClosed, c)
      else if peer_closed c then (0, Some ErrPipe, c)
      else (length b, None, c\<lparr>tx := tx c @ [b]\<rparr>))"

definition conn_Close :: "netconn \<Rightarrow> netconn" where
  "conn_Close c = c\<lparr>closed := True\<rparr>"

text \<open>
  The same connection seen from the other end, across a transport that holds at most
  \<open>cap\<close> bytes at a time (the socket buffer): the bytes written, in their order and
  without the boundaries of the writes, become available to the other end in groups of
  at most \<open>cap\<close> bytes, each group after the one before it has been read. The calls of the
  two ends follow one another: what a \<open>Write\<close> has written is there when the peer reads
  next, up to \<open>cap\<close> bytes of it.
\<close>

function chop :: "nat \<Rightarrow> 'a list \<Rightarrow> 'a list list" where
  "chop n xs = (if n = 0 \<or> xs = [] then [] else take n xs # chop n (drop n xs))"
  by pat_completeness auto

termination chop
  by (relation "measure (\<lambda>(n, xs). length xs)") auto

declare chop.simps [simp del]

definition peer_view :: "nat \<Rightarrow> netconn \<Rightarrow> netconn" where
  "peer_view cap c =
     \<lparr>rx = chop cap (concat (tx c)), tx = rx c, closed = peer_closed c, peer_closed = closed c\<rparr>"

text \<open>Bytes not yet read at this end.\<close>

definition pending :: "netconn \<Rightarrow> nat" where
  "pending c = sum_list (map length (rx c))"

text \<open>\<open>binary.BigEndian.PutUint32\<close> and \<open>binary.BigEndian.Uint32\<close>. The latter panics
  on a slice shorter than 4 bytes (\<open>None\<close>).\<close>

definition PutUint32 :: "32 word \<Rightarrow> byte list" where
  "PutUint32 v = [ucast (drop_bit 24 v), ucast (drop_bit 16 v), ucast (drop_bit 8 v), ucast v]"

fun Uint32 :: "byte list \<Rightarrow> 32 word option" where
  "Uint32 (b0 # b1 # b2 # b3 # bs) =
     Some (ucast b3 OR push_bit 8 (ucast b2) OR push_bit 16 (ucast b1) OR push_bit 24 (ucast b0))"
| "Uint32 _ = None"

text \<open>The value of a byte string read as a big-endian unsigned number.\<close>

definition be_value :: "byte list \<Rightarrow> nat" where
  "be_value bs = foldl (\<lambda>a b. a * 256 + unat b) 0 bs"

text \<open>
  \<open>encoding/json\<close> is a parameter: \<open>json_Marshal j s\<close> is \<open>json.Marshal(s)\<close> (\<open>None\<close> is an
  error), \<open>json_Unmarshal j bs\<close> is \<open>json.Unmarshal(bs, newMsg)\<close> on a zero
  \<open>communicator\<close> (\<open>None\<close> is an error, \<open>Some\<close> the value of \<open>newMsg\<close> afterwards).
\<close>

record 'v codec =
  json_Marshal :: "'v communicator \<Rightarrow> byte list option"
  json_Unmarshal :: "byte list \<Rightarrow> 'v communicator option"

section \<open>Errors\<close>

text \<open>One constructor for each \<open>fmt.Errorf\<close> of the repository.\<close>

datatype error =
    Send_marshal_failed
  | Send_write_failed ioerr
  | Send_short_write nat nat
  | Receive_length_failed
  | Receive_incorrect_length nat nat
  | Receive_read_failed ioerr
  | Receive_unmarshal_failed
  | reconnect_failed
  | Client_connect_failed error
  | Client_send_failed error
  | Client_receive_failed error

text \<open>A call either returns its \<open>error\<close> value (\<open>None\<close> is nil) or panics.\<close>

datatype outcome = Returns "error option" | Panics

text \<open>The errors of \<open>Receive\<close> raised while reading the frame from the stream.\<close>

fun framing_error :: "error \<Rightarrow> bool" where
  "framing_error Receive_length_failed = True"
| "framing_error (Receive_incorrect_length n m) = True"
| "framing_error (Receive_read_failed e) = True"
| "framing_error _ = False"

section \<open>The communicator (unixsock.go)\<close>

definition newCommunicator ::
  "string \<Rightarrow> 'v Args \<Rightarrow> Response option \<Rightarrow> bool \<Rightarrow> bool \<Rightarrow> 'v communicator" where
  "newCommunicator cmd args resp respond close =
     \<lparr>Cmd = cmd, Args = args, Response = resp, Respond = respond, Close = close,
      maxLength = 2 ^ 20, timeout = 5 * 1000000000\<rparr>"

definition empty_Response :: Response where
  "empty_Response = \<lparr>Status = [], Error = [], Payload = []\<rparr>"

definition NewSender :: "string \<Rightarrow> 'v Args \<Rightarrow> bool \<Rightarrow> bool \<Rightarrow> 'v communicator" where
  "NewSender cmd args respond close = newCommunicator cmd args (Some empty_Response) respond close"

definition NewReceiver :: "'v communicator" where
  "NewReceiver = newCommunicator [] (Some Map.empty) (Some empty_Response) True True"

definition Options :: "'v communicator \<Rightarrow> int \<Rightarrow> int \<Rightarrow> bool \<Rightarrow> bool \<Rightarrow> 'v communicator" where
  "Options s maxLength' timeout' respond close =
     s\<lparr>Respond := respond, Close := close, maxLength := maxLength', timeout := timeout'\<rparr>"

text \<open>\<open>Send\<close>: \<open>uint32(len(message))\<close> is the length modulo \<open>2 ^ 32\<close>; the delimiter
  \<open>":"\<close> is the byte \<open>0x3A\<close>. \<open>frame\<close> is the slice \<open>byteMsg\<close> that \<open>Send\<close> builds. The first
  statement of \<open>Send\<close> and of \<open>Receive\<close>, \<open>s.conn.SetDeadline\<close>, has no counterpart here
  (see the connection above); neither function writes to \<open>s.timeout\<close> or \<open>s.maxLength\<close>.\<close>

definition frame :: "byte list \<Rightarrow> byte list" where
  "frame message = [] @ PutUint32 (of_nat (length message)) @ [0x3A] @ message"

definition Send :: "'v codec \<Rightarrow> 'v communicator \<Rightarrow> netconn \<Rightarrow> error option \<times> netconn" where
  "Send j s c =
     (case json_Marshal j s of
        None \<Rightarrow> (Some Send_marshal_failed, c)
      | Some message \<Rightarrow>
          (let byteMsg = frame message
           in (case conn_Write byteMsg c of
                 (n, err, c') \<Rightarrow>
                   if n \<noteq> length byteMsg \<or> err \<noteq> None then
                     (case err of
                        Some e \<Rightarrow> (Some (Send_write_failed e), c')
                      | None \<Rightarrow> (Some (Send_short_write n (length byteMsg)), c'))
                   else (None, c'))))"

text \<open>\<open>Receive\<close> returns its outcome, the receiving communicator afterwards and the
  connection afterwards. \<open>msgLen\<close> is a \<open>uint32\<close>: the \<open>+ 1\<close> wraps. \<open>content[1:]\<close>
  panics on an empty \<open>content\<close>.\<close>

definition Receive ::
  "'v codec \<Rightarrow> 'v communicator \<Rightarrow> netconn \<Rightarrow> outcome \<times> 'v communicator \<times> netconn" where
  "Receive j s c =
     (case conn_Read (replicate 4 0) c of
        (n, err, length4, c1) \<Rightarrow>
          if n \<noteq> 4 \<or> err \<noteq> None then (Returns (Some Receive_length_failed), s, c1)
          else
            (case Uint32 length4 of
               None \<Rightarrow> (Panics, s, c1)
             | Some l \<Rightarrow>
                 (let msgLen = l + 1
                  in (case conn_Read (replicate (unat msgLen) 0) c1 of
                        (n, err, content, c2) \<Rightarrow>
                          if (of_nat n :: 32 word) \<noteq> msgLen \<or> (err \<noteq> None \<and> err \<noteq> Some EOF) then
                            (case err of
                               None \<Rightarrow> (Returns (Some (Receive_incorrect_length n (unat msgLen))), s, c2)
                             | Some e \<Rightarrow> (Returns (Some (Receive_read_failed e)), s, c2))
                          else if length content < 1 then (Panics, s, c2)
                          else
                            (case json_Unmarshal j (drop 1 content) of
                               None \<Rightarrow> (Returns (Some Receive_unmarshal_failed), s, c2)
                             | Some newMsg \<Rightarrow>
                                 (Returns None,
                                  s\<lparr>Cmd := Cmd newMsg, Args := Args newMsg,
                                    Response := Response newMsg, Respond := Respond newMsg,
                                    Close := Close newMsg\<rparr>,
                                  c2))))))"

definition GetResponse :: "'v communicator \<Rightarrow> Response option" where
  "GetResponse s = Response s"

definition SetResponse :: "'v communicator \<Rightarrow> Response option \<Rightarrow> 'v communicator" where
  "SetResponse s resp = s\<lparr>Response := resp\<rparr>"

definition GetCmd :: "'v communicator \<Rightarrow> string" where
  "GetCmd s = Cmd s"

definition GetArgs :: "'v communicator \<Rightarrow> 'v Args" where
  "GetArgs s = Args s"

definition ShouldRespond :: "'v communicator \<Rightarrow> bool" where
  "ShouldRespond s = Respond s"

definition ShouldClose :: "'v communicator \<Rightarrow> bool" where
  "ShouldClose s = Close s"

section \<open>The server's connection handler (server/server.go)\<close>

text \<open>
  \<open>newUnixRequestHandler handler\<close> returns the function run on each accepted connection.
  \<open>Loop_body\<close> is one pass through its \<open>for\<close> loop, \<open>Loop\<close> the loop, and
  \<open>newUnixRequestHandler\<close> the loop followed by the deferred \<open>c.Close()\<close>. The handler
  returns a \<open>*Response\<close>. A panic of \<open>Receive\<close> leaves the loop (\<open>Crash\<close>); the error that
  \<open>receiver.Send()\<close> returns is dropped, as in the source.
\<close>

datatype flow = Continue | Break | Crash

definition Loop_body ::
  "'v codec \<Rightarrow> (string \<Rightarrow> 'v Args \<Rightarrow> Response option) \<Rightarrow> netconn \<Rightarrow> flow \<times> netconn" where
  "Loop_body j handler c =
     (case Receive j NewReceiver c of
        (Panics, receiver, c1) \<Rightarrow> (Crash, c1)
      | (Returns (Some err), receiver, c1) \<Rightarrow> (Break, c1)
      | (Returns None, receiver, c1) \<Rightarrow>
          (let response = handler (GetCmd receiver) (GetArgs receiver);
               c2 = (if ShouldRespond receiver
                     then snd (Send j (SetResponse receiver response) c1)
                     else c1)
           in if ShouldClose receiver then (Break, c2) else (Continue, c2)))"

function Loop ::
  "'v codec \<Rightarrow> (string \<Rightarrow> 'v Args \<Rightarrow> Response option) \<Rightarrow> netconn \<Rightarrow> flow \<times> netconn" where
  "Loop j handler c =
     (let r = Loop_body j handler c
      in if fst r = Continue then Loop j handler (snd r) else r)"
  by pat_completeness auto

definition newUnixRequestHandler ::
  "'v codec \<Rightarrow> (string \<Rightarrow> 'v Args \<Rightarrow> Response option) \<Rightarrow> netconn \<Rightarrow> flow \<times> netconn" where
  "newUnixRequestHandler j handler c =
     (case Loop j handler c of (r, c') \<Rightarrow> (r, conn_Close c'))"

text \<open>
  The goroutine that the dispatcher starts on an accepted connection, running that
  function as far as it gets without waiting: where \<open>Receive\<close> would wait for the first
  byte of a request on a connection open at both ends, the task is \<open>Waiting\<close> there, with
  the connection open, and goes on from that \<open>Receive\<close>, the top of the loop, once the
  client has written. A task that is not written to again returns at the deadline of
  that \<open>Receive\<close>, as \<open>Loop\<close> has it (lemma \<open>newUnixRequestHandler_task\<close>).
\<close>

datatype task = Waiting | Ended flow

function server_task ::
  "'v codec \<Rightarrow> (string \<Rightarrow> 'v Args \<Rightarrow> Response option) \<Rightarrow> netconn \<Rightarrow> task \<times> netconn" where
  "server_task j handler c =
     (if \<not> closed c \<and> \<not> peer_closed c \<and> pending c = 0 then (Waiting, c)
      else (let r = Loop_body j handler c
            in if fst r = Continue then server_task j handler (snd r)
               else (Ended (fst r), conn_Close (snd r))))"
  by pat_completeness auto

section \<open>The client (client/client.go)\<close>

text \<open>
  The client's \<open>conn\<close> field is a reference into the store of connections of the
  \<open>world\<close>; \<open>None\<close> is nil. Times are nanoseconds since the epoch, \<open>Unix\<close> is
  \<open>Time.Unix()\<close> (whole seconds, rounded down) and \<open>zero_Time\<close> is the zero \<open>time.Time\<close>.
  \<open>net.Dial\<close> succeeds when a server listens on the path, and then allocates a fresh
  connection. The clock does not advance during a call.
\<close>

record unixSockClient =
  c_maxLength :: int
  c_timeout :: int
  c_respond :: bool
  c_close :: bool
  unixSockPath :: string
  conn :: "nat option"
  conntime :: int

record world =
  conns :: "nat \<Rightarrow> netconn"
  next_conn :: nat
  listeners :: "string list"
  clock :: int

definition fresh_conn :: netconn where
  "fresh_conn = \<lparr>rx = [], tx = [], closed = False, peer_closed = False\<rparr>"

definition Dial :: "string \<Rightarrow> world \<Rightarrow> nat option \<times> world" where
  "Dial path w =
     (if path \<in> set (listeners w)
      then (Some (next_conn w),
            w\<lparr>conns := (conns w)(next_conn w := fresh_conn), next_conn := Suc (next_conn w)\<rparr>)
      else (None, w))"

definition Now :: "world \<Rightarrow> int" where
  "Now w = clock w"

definition Unix :: "int \<Rightarrow> int" where
  "Unix t = t div 1000000000"

definition zero_Time :: int where
  "zero_Time = - 62135596800 * 1000000000"

definition client_New :: "string \<Rightarrow> unixSockClient" where
  "client_New UnixSockPath =
     \<lparr>c_maxLength = 2 ^ 20, c_timeout = 5 * 1000000000, c_respond = True, c_close = True,
      unixSockPath = UnixSockPath, conn = None, conntime = zero_Time\<rparr>"

definition client_Options :: "unixSockClient \<Rightarrow> int \<Rightarrow> int \<Rightarrow> bool \<Rightarrow> bool \<Rightarrow> unixSockClient" where
  "client_Options u maxLength' timeout' respond close =
     u\<lparr>c_respond := respond, c_close := close, c_maxLength := maxLength', c_timeout := timeout'\<rparr>"

definition reconnect :: "unixSockClient \<Rightarrow> world \<Rightarrow> error option \<times> unixSockClient \<times> world" where
  "reconnect u w =
     (if conn u \<noteq> None \<and> Unix (Now w) - Unix (conntime u) < 5 then (None, u, w)
      else (case Dial (unixSockPath u) w of
              (None, w') \<Rightarrow> (Some reconnect_failed, u, w')
            | (Some c, w') \<Rightarrow> (None, u\<lparr>conn := Some c, conntime := Now w'\<rparr>, w')))"

text \<open>
  \<open>Send\<close> of the client. \<open>peer\<close> is what the other end does to the connection between
  the client's write and the client's read. The result is the pair the method returns
  (with \<open>Panics\<close> when it does not return), the client and the world afterwards. A nil
  \<open>u.conn\<close> after a successful \<open>reconnect\<close> would be a nil dereference.
\<close>

definition client_Send ::
  "'v codec \<Rightarrow> (netconn \<Rightarrow> netconn) \<Rightarrow> unixSockClient \<Rightarrow> string \<Rightarrow> 'v Args \<Rightarrow> bool \<Rightarrow> bool \<Rightarrow>
     world \<Rightarrow> (Response option \<times> outcome) \<times> unixSockClient \<times> world" where
  "client_Send j peer u cmd args respond close w =
     (case reconnect u w of
        (Some err, u1, w1) \<Rightarrow> ((None, Returns (Some (Client_connect_failed err))), u1, w1)
      | (None, u1, w1) \<Rightarrow>
          (case conn u1 of
             None \<Rightarrow> ((None, Panics), u1, w1)
           | Some h \<Rightarrow>
               (let msg = NewSender cmd args respond close;
                    msg = Options msg (c_maxLength u1) (c_timeout u1) respond close
                in (case Send j msg (conns w1 h) of
                      (Some err, c1) \<Rightarrow>
                        ((None, Returns (Some (Client_send_failed err))), u1,
                         w1\<lparr>conns := (conns w1)(h := c1)\<rparr>)
                    | (None, c1) \<Rightarrow>
                        if respond then
                          (case Receive j msg (peer c1) of
                             (Panics, msg', c2) \<Rightarrow>
                               ((None, Panics), u1, w1\<lparr>conns := (conns w1)(h := c2)\<rparr>)
                           | (Returns (Some err), msg', c2) \<Rightarrow>
                               ((None, Returns (Some (Client_receive_failed err))), u1,
                                w1\<lparr>conns := (conns w1)(h := c2)\<rparr>)
                           | (Returns None, msg', c2) \<Rightarrow>
                               ((GetResponse msg', Returns None), u1,
                                w1\<lparr>conns := (conns w1)(h := c2)\<rparr>))
                        else ((None, Returns None), u1, w1\<lparr>conns := (conns w1)(h := c1)\<rparr>)))))"

definition Quit :: "unixSockClient \<Rightarrow> world \<Rightarrow> world" where
  "Quit u w =
     (case conn u of
        None \<Rightarrow> w
      | Some h \<Rightarrow> w\<lparr>conns := (conns w)(h := conn_Close (conns w h))\<rparr>)"

section \<open>Properties\<close>

text \<open>A frame for a payload: four bytes holding the payload's length as a big-endian
  number, the delimiter byte \<open>":"\<close>, the payload.\<close>

definition well_framed :: "byte list \<Rightarrow> byte list \<Rightarrow> bool" where
  "well_framed fr payload \<longleftrightarrow>
     length fr = 5 + length payload \<and> be_value (take 4 fr) = length payload \<and>
     take 1 (drop 4 fr) = [0x3A] \<and> drop 5 fr = payload"

text \<open>\<open>poke k d groups\<close> overwrites byte number \<open>k\<close> of the stream held in the groups
  (if the stream is that long) and leaves everything else, the grouping too.\<close>

fun poke :: "nat \<Rightarrow> byte \<Rightarrow> byte list list \<Rightarrow> byte list list" where
  "poke k d [] = []"
| "poke k d (ch # rest) =
     (if k < length ch then ch[k := d] # rest else ch # poke (k - length ch) d rest)"


text \<open>The five fields of an envelope that travel on the wire.\<close>

definition same_envelope :: "'v communicator \<Rightarrow> 'v communicator \<Rightarrow> bool" where
  "same_envelope a b \<longleftrightarrow>
     Cmd a = Cmd b \<and> Args a = Args b \<and> Response a = Response b \<and>
     Respond a = Respond b \<and> Close a = Close b"

text \<open>The receiver of the handler loop after a successful \<open>Receive\<close> that decoded \<open>e\<close>:
  a \<open>NewReceiver\<close> with the five fields of \<open>e\<close>.\<close>

definition received :: "'v communicator \<Rightarrow> 'v communicator" where
  "received e =
     NewReceiver\<lparr>Cmd := Cmd e, Args := Args e, Response := Response e, Respond := Respond e,
       Close := Close e\<rparr>"

text \<open>An envelope given by the five fields that travel; the unexported \<open>maxLength\<close> and
  \<open>timeout\<close> are zero, as in the \<open>newMsg\<close> that \<open>Receive\<close> decodes into.\<close>

definition wire ::
  "string \<Rightarrow> 'v Args \<Rightarrow> Response option \<Rightarrow> bool \<Rightarrow> bool \<Rightarrow> 'v communicator" where
  "wire cmd args resp respond close =
     \<lparr>Cmd = cmd, Args = args, Response = resp, Respond = respond, Close = close,
      maxLength = 0, timeout = 0\<rparr>"

text \<open>\<open>encoding/json\<close> writes the exported fields of a struct only.\<close>

definition exported_only :: "'v codec \<Rightarrow> bool" where
  "exported_only j \<longleftrightarrow> (\<forall>s s'. same_envelope s s' \<longrightarrow> json_Marshal j s = json_Marshal j s')"

text \<open>\<open>Receive\<close> has returned one of its framing errors.\<close>

fun refuses :: "outcome \<Rightarrow> bool" where
  "refuses (Returns (Some e)) = framing_error e"
| "refuses _ = False"

text \<open>The server's task on a connection, seen from the client's end: what the client
  has written reaches the task, the task runs, and what it has written reaches the
  client.\<close>

definition server_peer ::
  "nat \<Rightarrow> 'v codec \<Rightarrow> (string \<Rightarrow> 'v Args \<Rightarrow> Response option) \<Rightarrow> netconn \<Rightarrow> netconn" where
  "server_peer cap j handler c = peer_view cap (snd (server_task j handler (peer_view cap c)))"

section \<open>Sample inputs\<close>

text \<open>A stand-in for the JSON library that knows two payloads: requests (envelopes
  whose response is still the empty one of \<open>NewSender\<close>) are written as \<open>m1\<close>, all other
  envelopes as \<open>m2\<close>; \<open>m1\<close> is read back as \<open>e1\<close> and \<open>m2\<close> as \<open>e2\<close>.\<close>

definition sample_codec ::
  "byte list \<Rightarrow> 'v communicator \<Rightarrow> byte list \<Rightarrow> 'v communicator \<Rightarrow> 'v codec" where
  "sample_codec m1 e1 m2 e2 =
     \<lparr>json_Marshal = (\<lambda>s. if Response s = Some empty_Response then Some m1 else Some m2),
      json_Unmarshal = (\<lambda>bs. if bs = m1 then Some e1 else if bs = m2 then Some e2 else None)\<rparr>"

text \<open>A stand-in that knows two envelopes: an envelope with the five fields of \<open>e1\<close> is
  written as \<open>m1\<close>, one with the five fields of \<open>e2\<close> as \<open>m2\<close>, and no other envelope is
  written at all; \<open>m1\<close> is read back as \<open>e1\<close> and \<open>m2\<close> as \<open>e2\<close>.\<close>

definition table_codec ::
  "byte list \<Rightarrow> 'v communicator \<Rightarrow> byte list \<Rightarrow> 'v communicator \<Rightarrow> 'v codec" where
  "table_codec m1 e1 m2 e2 =
     \<lparr>json_Marshal = (\<lambda>s. if same_envelope s e1 then Some m1
                          else if same_envelope s e2 then Some m2 else None),
      json_Unmarshal = (\<lambda>bs. if bs = m1 then Some e1 else if bs = m2 then Some e2 else None)\<rparr>"

definition envelope ::
  "string \<Rightarrow> Response option \<Rightarrow> bool \<Rightarrow> bool \<Rightarrow> string communicator" where
  "envelope cmd resp respond close =
     \<lparr>Cmd = cmd, Args = None, Response = resp, Respond = respond, Close = close,
      maxLength = 0, timeout = 0\<rparr>"

text \<open>The request handler of the README: it knows the command \<open>echo\<close>.\<close>

definition echo_handler :: "string \<Rightarrow> string Args \<Rightarrow> Response option" where
  "echo_handler cmd args =
     (if cmd = ''echo'' then Some \<lparr>Status = STATUS_OK, Error = [], Payload = cmd\<rparr>
      else Some \<lparr>Status = STATUS_FAIL, Error = ''unknown command'', Payload = []\<rparr>)"

definition conn_with :: "byte list list \<Rightarrow> bool \<Rightarrow> netconn" where
  "conn_with chunks ended = \<lparr>rx = chunks, tx = [], closed = False, peer_closed = ended\<rparr>"

text \<open>A request \<open>ping\<close> whose payload is taken to be the two bytes \<^verbatim>\<open>{}\<close>.\<close>

definition ping :: "string communicator" where
  "ping = envelope ''ping'' None True False"

definition ping_codec :: "string codec" where
  "ping_codec = sample_codec [0x7B, 0x7D] ping [0x7B, 0x7D] ping"

text \<open>The same request with \<open>maxLength = 2 ^ 32\<close> and a payload of \<open>n\<close> bytes.\<close>

definition huge_ping :: "string communicator" where
  "huge_ping = ping\<lparr>maxLength := 2 ^ 32\<rparr>"

definition huge_codec :: "nat \<Rightarrow> string codec" where
  "huge_codec n = sample_codec (replicate n 0x20) huge_ping (replicate n 0x20) huge_ping"

text \<open>The request \<open>ping\<close> of \<open>NewSender\<close> with a payload of \<open>n\<close> bytes.\<close>

definition big_codec :: "nat \<Rightarrow> string codec" where
  "big_codec n =
     table_codec (replicate n 0x20) (wire ''ping'' None (Some empty_Response) True False)
       (replicate n 0x20) (wire ''ping'' None (Some empty_Response) True False)"

text \<open>Two requests of one session, with the payloads \<open>[1]\<close> and \<open>[2]\<close>; every response is
  written as \<open>[2]\<close>.\<close>

definition session_codec :: "string codec" where
  "session_codec =
     sample_codec [1] (envelope ''echo'' None True False) [2] (envelope ''quit'' None True True)"



definition echo_response :: Response where
  "echo_response = \<lparr>Status = ''success'', Error = [], Payload = ''echo''\<rparr>"

definition echo_codec :: "string codec" where
  "echo_codec =
     sample_codec [1] (envelope ''echo'' None True True)
       [2] (envelope ''echo'' (Some echo_response) True True)"




text \<open>A world at clock \<open>t\<close> with servers listening on \<open>paths\<close>, in which connection 0
  has been allocated; a new client, and a client that holds connection 0 since \<open>t\<close>.\<close>

definition world_at :: "int \<Rightarrow> string list \<Rightarrow> world" where
  "world_at t paths = \<lparr>conns = (\<lambda>h. fresh_conn), next_conn = 1, listeners = paths, clock = t\<rparr>"

definition new_client :: unixSockClient where
  "new_client = client_New ''/tmp/unix.sock''"

definition client_since :: "int \<Rightarrow> unixSockClient" where
  "client_since t = new_client\<lparr>conn := Some 0, conntime := t\<rparr>"

section \<open>The byte order and the transport\<close>

lemma be_value_PutUint32: "be_value (PutUint32 v) = unat v"
proof -
  define n where "n = unat v"
  define q1 where "q1 = n div 256"
  define q2 where "q2 = q1 div 256"
  define q3 where "q3 = q2 div 256"
  have "n < 2 ^ 32" unfolding n_def using unsigned_less [of v] by simp
  then have "q3 < 256" unfolding q3_def q2_def q1_def by simp
  then have m3: "q3 mod 256 = q3" by simp
  have d2: "n div 65536 = q2" unfolding q2_def q1_def by (simp add: div_mult2_eq [symmetric])
  have d3: "n div 16777216 = q3" unfolding q3_def q2_def q1_def by (simp add: div_mult2_eq [symmetric])
  have e1: "q1 * 256 + n mod 256 = n" unfolding q1_def by simp
  have e2: "q2 * 256 + q1 mod 256 = q1" unfolding q2_def by simp
  have e3: "q3 * 256 + q2 mod 256 = q2" unfolding q3_def by simp
  have "((q3 mod 256 * 256 + q2 mod 256) * 256 + q1 mod 256) * 256 + n mod 256 = n"
    by (simp only: m3 e3 e2 e1)
  then have "((n div 16777216 mod 256 * 256 + n div 65536 mod 256) * 256 +
      n div 256 mod 256) * 256 + n mod 256 = n"
    by (simp only: d2 d3 q1_def [symmetric])
  moreover have "n div 16777216 mod 256 = n div 16777216"
    using m3 d3 by simp
  ultimately show ?thesis
    unfolding n_def
    by (simp add: be_value_def PutUint32_def unsigned_ucast_eq unat_drop_bit_eq drop_bit_eq_div
        take_bit_eq_mod unat_div)
qed

lemma Uint32_PutUint32: "Uint32 (PutUint32 v @ bs) = Some v"
proof -
  have "ucast (ucast v :: byte) OR push_bit 8 (ucast (ucast (drop_bit 8 v) :: byte))
      OR push_bit 16 (ucast (ucast (drop_bit 16 v) :: byte))
      OR push_bit 24 (ucast (ucast (drop_bit 24 v) :: byte)) = v"
  proof (rule bit_word_eqI)
    fix n :: nat
    assume "n < LENGTH(32)"
    then have n: "n < 32" by simp
    consider "n < 8" | "8 \<le> n" "n < 16" | "16 \<le> n" "n < 24" | "24 \<le> n"
      by linarith
    then show "bit ((ucast (ucast v :: byte) :: 32 word)
      OR push_bit 8 (ucast (ucast (drop_bit 8 v) :: byte))
      OR push_bit 16 (ucast (ucast (drop_bit 16 v) :: byte))
      OR push_bit 24 (ucast (ucast (drop_bit 24 v) :: byte))) n = bit v n"
      using n by cases (auto simp add: bit_simps)
  qed
  then show ?thesis by (simp add: PutUint32_def)
qed

lemma length_PutUint32: "length (PutUint32 v) = 4"
  by (simp add: PutUint32_def)

lemma of_nat_length32:
  assumes "n < 2 ^ 32 - 1"
  shows "(of_nat n :: 32 word) \<noteq> - 1" and "unat (of_nat n :: 32 word) = n"
proof -
  show u: "unat (of_nat n :: 32 word) = n" using assms by (simp add: unat_of_nat)
  show "(of_nat n :: 32 word) \<noteq> - 1"
  proof
    assume "(of_nat n :: 32 word) = - 1"
    then have "unat (of_nat n :: 32 word) = unat (- 1 :: 32 word)" by simp
    then show False
      using u assms by (simp add: unsigned_minus_1_eq_mask mask_eq_exp_minus_1)
  qed
qed

lemma sum_dropWhile_empty:
  "sum_list (map length (dropWhile (\<lambda>ch. ch = []) xs)) = sum_list (map length (xs :: 'a list list))"
  by (induction xs) auto

text \<open>A \<open>Read\<close> takes the bytes it returns out of the stream.\<close>

lemma pending_Read:
  assumes "conn_Read buf c = (n, err, buf', c')"
  shows "pending c' + n = pending c"
proof -
  define d where "d = dropWhile (\<lambda>ch. ch = []) (rx c)"
  have eq: "pending c = sum_list (map length d)"
    by (simp add: pending_def d_def sum_dropWhile_empty)
  show ?thesis
  proof (cases "closed c \<or> buf = []")
    case True
    then show ?thesis using assms by (auto simp add: conn_Read_def split: if_splits)
  next
    case False
    show ?thesis
    proof (cases d)
      case Nil
      then show ?thesis
        using assms False eq by (auto simp add: conn_Read_def d_def [symmetric] pending_def)
    next
      case (Cons ch rest)
      have "length (take (length buf) ch) + length (drop (length buf) ch) = length ch"
        by simp
      then show ?thesis
        using assms False eq Cons
        by (auto simp add: conn_Read_def d_def [symmetric] pending_def Let_def
            simp del: length_take length_drop)
    qed
  qed
qed

lemma Read_prefix:
  assumes "\<not> closed c" "rx c = (pre @ d # p) # rest" "length pre = 4"
  shows "conn_Read (replicate 4 0) c = (4, None, pre, c\<lparr>rx := (d # p) # rest\<rparr>)"
  using assms by (simp add: conn_Read_def Let_def)

lemma Read_body:
  assumes "\<not> closed c" "rx c = (d # p) # rest" "k = Suc (length p)"
  shows "conn_Read (replicate k 0) c = (k, None, d # p, c\<lparr>rx := rest\<rparr>)"
  using assms by (simp add: conn_Read_def Let_def)

lemma Read_head4:
  assumes "\<not> closed c" "rx c = (pre @ tail) # rest" "length pre = 4"
  shows "conn_Read (replicate 4 0) c
     = (4, None, pre, c\<lparr>rx := (if tail = [] then rest else tail # rest)\<rparr>)"
proof -
  have "pre \<noteq> []" using assms(3) by auto
  then show ?thesis using assms by (simp add: conn_Read_def Let_def)
qed

text \<open>What the transport holds at a time: a stream that fits is one group, and no group
  is longer than \<open>cap\<close>.\<close>

lemma chop_fits: "xs \<noteq> [] \<Longrightarrow> length xs \<le> cap \<Longrightarrow> chop cap xs = [xs]"
  by (subst chop.simps, subst chop.simps) (cases xs, auto)

lemma chop_head:
  "0 < cap \<Longrightarrow> xs \<noteq> [] \<Longrightarrow> chop cap xs = take cap xs # chop cap (drop cap xs)"
  by (subst chop.simps) simp

lemma chop_bounded: "ch \<in> set (chop cap xs) \<Longrightarrow> length ch \<le> cap"
proof (induction cap xs rule: chop.induct)
  case (1 n xs)
  then show ?case by (subst (asm) chop.simps) (auto split: if_splits)
qed

text \<open>A \<open>Read\<close> returns no more bytes than the group it finds.\<close>

lemma Read_bounded:
  assumes "\<forall>ch\<in>set (rx c). length ch \<le> cap" and "conn_Read buf c = (n, e, b, c')"
  shows "n \<le> cap" and "\<forall>ch\<in>set (rx c'). length ch \<le> cap"
proof -
  have sub: "set (dropWhile (\<lambda>ch. ch = []) (rx c)) \<subseteq> set (rx c)"
    by (auto dest: set_dropWhileD)
  show "n \<le> cap"
  proof (cases "dropWhile (\<lambda>ch. ch = []) (rx c)")
    case Nil
    then show ?thesis using assms
      by (auto simp add: conn_Read_def split: if_splits simp del: dropWhile_eq_Nil_conv)
  next
    case (Cons ch rest)
    then have "length ch \<le> cap" using sub assms(1) by auto
    then show ?thesis using assms(2) Cons
      by (auto simp add: conn_Read_def Let_def split: if_splits simp del: dropWhile_eq_Nil_conv)
  qed
  show "\<forall>ch\<in>set (rx c'). length ch \<le> cap"
  proof (cases "dropWhile (\<lambda>ch. ch = []) (rx c)")
    case Nil
    then show ?thesis using assms
      by (auto simp add: conn_Read_def split: if_splits simp del: dropWhile_eq_Nil_conv)
  next
    case (Cons ch rest)
    then have "length ch \<le> cap" "\<forall>x\<in>set rest. length x \<le> cap" using sub assms(1) by auto
    then show ?thesis using assms Cons
      by (auto simp add: conn_Read_def Let_def split: if_splits simp del: dropWhile_eq_Nil_conv)
  qed
qed

section \<open>Send and Receive\<close>

lemma Send_rx: "rx (snd (Send j s c)) = rx c"
  by (auto simp add: Send_def conn_Write_def Let_def split: option.splits if_splits)

lemma Send_ok:
  assumes "json_Marshal j s = Some m" "\<not> closed c" "\<not> peer_closed c"
  shows "Send j s c = (None, c\<lparr>tx := tx c @ [frame m]\<rparr>)"
  using assms by (simp add: Send_def conn_Write_def Let_def)

text \<open>A whole frame at the head of the stream, with any delimiter byte \<open>d\<close> and a
  declared length other than \<open>0xFFFFFFFF\<close>: \<open>Receive\<close> hands exactly the payload to the
  JSON library and takes exactly the frame out of the stream.\<close>

lemma Receive_framed:
  assumes c: "\<not> closed c" and rx: "rx c = (PutUint32 l @ d # p) # rest"
    and len: "length p = unat l" and l: "l \<noteq> - 1"
  shows "Receive j s c =
     (case json_Unmarshal j p of
        None \<Rightarrow> (Returns (Some Receive_unmarshal_failed), s, c\<lparr>rx := rest\<rparr>)
      | Some newMsg \<Rightarrow>
          (Returns None,
           s\<lparr>Cmd := Cmd newMsg, Args := Args newMsg, Response := Response newMsg,
             Respond := Respond newMsg, Close := Close newMsg\<rparr>,
           c\<lparr>rx := rest\<rparr>))"
proof -
  have r1: "conn_Read (replicate 4 0) c = (4, None, PutUint32 l, c\<lparr>rx := (d # p) # rest\<rparr>)"
    using Read_prefix [OF c rx] by (simp add: length_PutUint32)
  have u: "Uint32 (PutUint32 l) = Some l"
    using Uint32_PutUint32 [of l "[]"] by simp
  have "1 + l \<noteq> 0" using l by (metis add.commute add_eq_0_iff)
  then have k: "unat (l + 1) = Suc (length p)"
    using unatSuc [of l] len by (simp add: add.commute)
  have r2: "conn_Read (replicate (unat (l + 1)) 0) (c\<lparr>rx := (d # p) # rest\<rparr>)
      = (unat (l + 1), None, d # p, c\<lparr>rx := rest\<rparr>)"
    using Read_body [of "c\<lparr>rx := (d # p) # rest\<rparr>" d p rest "unat (l + 1)"] c k by simp
  show ?thesis
    by (simp add: Receive_def r1 u Let_def r2 split: option.splits)
qed

lemma Receive_frame:
  assumes c: "\<not> closed c" and rx: "rx c = frame m # rest" and len: "length m < 2 ^ 32 - 1"
  shows "Receive j s c =
     (case json_Unmarshal j m of
        None \<Rightarrow> (Returns (Some Receive_unmarshal_failed), s, c\<lparr>rx := rest\<rparr>)
      | Some newMsg \<Rightarrow>
          (Returns None,
           s\<lparr>Cmd := Cmd newMsg, Args := Args newMsg, Response := Response newMsg,
             Respond := Respond newMsg, Close := Close newMsg\<rparr>,
           c\<lparr>rx := rest\<rparr>))"
  using Receive_framed [of c "of_nat (length m)" "0x3A" m rest j s] c rx of_nat_length32 [OF len]
  by (simp add: frame_def)

text \<open>A successful \<open>Receive\<close> has taken at least the four bytes of the prefix.\<close>

lemma Receive_ok_pending:
  assumes "Receive j s c = (Returns None, s', c')"
  shows "pending c' + 4 \<le> pending c"
proof -
  obtain n1 e1 b1 c1 where r1: "conn_Read (replicate 4 0) c = (n1, e1, b1, c1)"
    by (metis prod_cases4)
  have n1: "n1 = 4" using assms r1 by (auto simp add: Receive_def split: if_splits)
  from assms r1 n1 obtain l where l: "Uint32 b1 = Some l"
    by (auto simp add: Receive_def split: if_splits option.splits)
  obtain n2 e2 b2 c2 where r2: "conn_Read (replicate (unat (l + 1)) 0) c1 = (n2, e2, b2, c2)"
    by (metis prod_cases4)
  have "c' = c2" using assms r1 n1 l r2
    by (auto simp add: Receive_def Let_def split: if_splits option.splits)
  moreover have "pending c1 + 4 = pending c" using pending_Read [OF r1] n1 by simp
  moreover have "pending c2 + n2 = pending c1" using pending_Read [OF r2] .
  ultimately show ?thesis by simp
qed

section \<open>The handler loop ends\<close>

lemma Loop_body_Continue:
  assumes "fst (Loop_body j h c) = Continue"
  shows "pending (snd (Loop_body j h c)) < pending c"
proof -
  obtain r s' c1 where rc: "Receive j NewReceiver c = (r, s', c1)"
    by (metis prod_cases3)
  have r: "r = Returns None" using assms rc
    by (auto simp add: Loop_body_def Let_def split: outcome.splits option.splits if_splits)
  have "rx (snd (Loop_body j h c)) = rx c1"
    using rc r by (simp add: Loop_body_def Let_def Send_rx)
  then have "pending (snd (Loop_body j h c)) = pending c1" by (simp add: pending_def)
  then show ?thesis using Receive_ok_pending [of j NewReceiver c s' c1] rc r by simp
qed

termination Loop
proof (relation "measure (\<lambda>(j, h, c). pending c)")
  show "wf (measure (\<lambda>(j, h, c). pending c))" by simp
next
  fix j :: "'v codec" and handler :: "string \<Rightarrow> 'v Args \<Rightarrow> Response option"
    and c :: netconn and x :: "flow \<times> netconn"
  assume "x = Loop_body j handler c" and "fst x = Continue"
  then show "((j, handler, snd x), (j, handler, c)) \<in> measure (\<lambda>(j, h, c). pending c)"
    using Loop_body_Continue [of j handler c] by simp
qed

declare Loop.simps [simp del]

termination server_task
proof (relation "measure (\<lambda>(j, h, c). pending c)")
  show "wf (measure (\<lambda>(j, h, c). pending c))" by simp
next
  fix j :: "'v codec" and handler :: "string \<Rightarrow> 'v Args \<Rightarrow> Response option"
    and c :: netconn and x :: "flow \<times> netconn"
  assume "x = Loop_body j handler c" and "fst x = Continue"
  then show "((j, handler, snd x), (j, handler, c)) \<in> measure (\<lambda>(j, h, c). pending c)"
    using Loop_body_Continue [of j handler c] by simp
qed

declare server_task.simps [simp del]

section \<open>The frame written by Send\<close>

lemma well_framed_frame: "well_framed (frame m) m \<longleftrightarrow> length m < 2 ^ 32"
proof -
  have "take 4 (frame m) = PutUint32 (of_nat (length m))"
    by (simp add: frame_def length_PutUint32)
  then have "be_value (take 4 (frame m)) = length m mod 2 ^ 32"
    by (simp add: be_value_PutUint32 unat_of_nat)
  moreover have "length (frame m) = 5 + length m" "take 1 (drop 4 (frame m)) = [0x3A]"
    "drop 5 (frame m) = m"
    by (simp_all add: frame_def length_PutUint32)
  ultimately show ?thesis
    by (auto simp add: well_framed_def)
qed

text \<open>
  C6 (as amended). For every envelope whose encoded payload is shorter than \<open>2 ^ 32\<close> bytes,
  a successful \<open>Send\<close> writes one frame: a 4-byte big-endian unsigned length prefix, the
  delimiter byte, the payload; the prefix is the exact byte length of the payload, the
  delimiter not counted. (The prefix is \<open>uint32(len(message))\<close>: for longer payloads it
  holds the length modulo \<open>2 ^ 32\<close>, as the counterexample shows for \<open>2 ^ 32\<close> bytes.)
\<close>

theorem Send_frame_layout:
  assumes "json_Marshal j s = Some message" and "\<not> closed c" and "\<not> peer_closed c"
    and "length message < 2 ^ 32"
  shows "fst (Send j s c) = None
    \<and> tx (snd (Send j s c)) = tx c @ [PutUint32 (of_nat (length message)) @ [0x3A] @ message]
    \<and> well_framed (PutUint32 (of_nat (length message)) @ [0x3A] @ message) message"
  using assms Send_ok [of j s message c] well_framed_frame [of message]
  by (simp add: frame_def)

theorem Send_frame_layout_witness:
  "fst (Send ping_codec ping (conn_with [] False)) = None
   \<and> tx (snd (Send ping_codec ping (conn_with [] False))) = [[0, 0, 0, 2, 0x3A, 0x7B, 0x7D]]
   \<and> well_framed [0, 0, 0, 2, 0x3A, 0x7B, 0x7D] [0x7B, 0x7D]"
  using Send_frame_layout [of ping_codec ping "[0x7B, 0x7D]" "conn_with [] False"]
  by (simp add: ping_codec_def ping_def sample_codec_def envelope_def conn_with_def
      PutUint32_def)

theorem Send_huge_payload_counterexample:
  "json_Marshal (huge_codec (2 ^ 32)) huge_ping = Some (replicate (2 ^ 32) 0x20)
   \<and> fst (Send (huge_codec (2 ^ 32)) huge_ping (conn_with [] False)) = None
   \<and> take 5 (last (tx (snd (Send (huge_codec (2 ^ 32)) huge_ping (conn_with [] False)))))
       = [0, 0, 0, 0, 0x3A]
   \<and> \<not> well_framed
         (last (tx (snd (Send (huge_codec (2 ^ 32)) huge_ping (conn_with [] False)))))
         (replicate (2 ^ 32) 0x20)"
proof -
  have s: "Send (huge_codec (2 ^ 32)) huge_ping (conn_with [] False)
     = (None, (conn_with [] False)
          \<lparr>tx := tx (conn_with [] False) @ [frame (replicate (2 ^ 32) 0x20)]\<rparr>)"
    by (rule Send_ok) (simp_all add: huge_codec_def sample_codec_def conn_with_def)
  have p: "take 5 (frame (replicate (2 ^ 32) 0x20)) = [0, 0, 0, 0, 0x3A]"
    by (simp add: frame_def PutUint32_def)
  have j: "json_Marshal (huge_codec (2 ^ 32)) huge_ping = Some (replicate (2 ^ 32) 0x20)"
    by (simp add: huge_codec_def sample_codec_def)
  show ?thesis
    using s p j by (simp add: well_framed_frame)
qed

section \<open>Receive on a short stream\<close>

lemma Receive_error_unchanged:
  "fst (Receive j s c) \<noteq> Returns None \<Longrightarrow> fst (snd (Receive j s c)) = s"
  by (auto simp add: Receive_def Let_def split: prod.splits option.splits if_splits)

lemma Receive_wrap:
  assumes c: "\<not> closed c" and rx: "rx c = (pre @ tail) # rest" and pre: "length pre = 4"
    and l: "Uint32 pre = Some (- 1)"
  shows "fst (Receive j s c) = Panics"
proof -
  have r1: "\<exists>c1. conn_Read (replicate 4 0) c = (4, None, pre, c1) \<and> \<not> closed c1"
  proof -
    have "pre \<noteq> []" using pre by auto
    then show ?thesis using c rx pre by (simp add: conn_Read_def Let_def)
  qed
  then obtain c1 where c1: "conn_Read (replicate 4 0) c = (4, None, pre, c1)" "\<not> closed c1"
    by blast
  have r2: "conn_Read [] c1 = (0, None, [], c1)"
    using c1 by (simp add: conn_Read_def)
  show ?thesis
    by (simp add: Receive_def c1 l r2)
qed

lemma Receive_short_prefix:
  assumes "pending c < 4"
  shows "Receive j s c = (Returns (Some Receive_length_failed), s,
     snd (snd (snd (conn_Read (replicate 4 0) c))))"
proof -
  obtain n e b c1 where r: "conn_Read (replicate 4 0) c = (n, e, b, c1)"
    by (metis prod_cases4)
  have "n < 4" using pending_Read [OF r] assms by simp
  then show ?thesis by (simp add: Receive_def r)
qed

lemma Receive_short_body:
  assumes r1: "conn_Read (replicate 4 0) c = (4, None, pre, c1)" and l: "Uint32 pre = Some l"
    and nowrap: "l \<noteq> - 1" and short: "pending c1 < unat l + 1"
  shows "\<exists>e. fst (Receive j s c) = Returns (Some e) \<and> framing_error e"
    and "fst (snd (Receive j s c)) = s"
proof -
  obtain n e b c2 where r2: "conn_Read (replicate (unat (l + 1)) 0) c1 = (n, e, b, c2)"
    by (metis prod_cases4)
  have "1 + l \<noteq> 0" using nowrap by (metis add.commute add_eq_0_iff)
  then have k: "unat (l + 1) = Suc (unat l)"
    using unatSuc [of l] by (simp add: add.commute)
  have n: "n < unat (l + 1)" using pending_Read [OF r2] short k by simp
  have "(of_nat n :: 32 word) \<noteq> l + 1"
  proof
    assume "(of_nat n :: 32 word) = l + 1"
    then have "unat (of_nat n :: 32 word) = unat (l + 1)" by simp
    moreover have "unat (l + 1) < 2 ^ 32" using unsigned_less [of "l + 1"] by simp
    then have "n < 2 ^ 32" using n by simp
    ultimately show False using n \<open>n < 2 ^ 32\<close> by (simp add: unat_of_nat)
  qed
  then show "\<exists>e. fst (Receive j s c) = Returns (Some e) \<and> framing_error e"
    and "fst (snd (Receive j s c)) = s"
    by (auto simp add: Receive_def r1 l Let_def r2 split: option.splits)
qed

text \<open>A frame longer than what the transport holds at a time: \<open>Receive\<close> issues a single
  \<open>Read\<close> for the delimiter and the payload, which finds at most \<open>cap\<close> bytes, and refuses
  a declared length of \<open>cap\<close> or more.\<close>

lemma Receive_bounded:
  assumes bound: "\<forall>ch\<in>set (rx c). length ch \<le> cap"
    and r1: "conn_Read (replicate 4 0) c = (4, None, pre, c1)" and l: "Uint32 pre = Some l"
    and nowrap: "l \<noteq> - 1" and short: "cap \<le> unat l"
  shows "refuses (fst (Receive j s c))" and "fst (snd (Receive j s c)) = s"
proof -
  obtain n e b c2 where r2: "conn_Read (replicate (unat (l + 1)) 0) c1 = (n, e, b, c2)"
    by (metis prod_cases4)
  have "1 + l \<noteq> 0" using nowrap by (metis add.commute add_eq_0_iff)
  then have k: "unat (l + 1) = Suc (unat l)"
    using unatSuc [of l] by (simp add: add.commute)
  have "n \<le> cap" using Read_bounded(1) [OF Read_bounded(2) [OF bound r1] r2] .
  then have n: "n < unat (l + 1)" using short k by simp
  have "(of_nat n :: 32 word) \<noteq> l + 1"
  proof
    assume "(of_nat n :: 32 word) = l + 1"
    then have "unat (of_nat n :: 32 word) = unat (l + 1)" by simp
    moreover have "unat (l + 1) < 2 ^ 32" using unsigned_less [of "l + 1"] by simp
    then have "n < 2 ^ 32" using n by simp
    ultimately show False using n \<open>n < 2 ^ 32\<close> by (simp add: unat_of_nat)
  qed
  then show "refuses (fst (Receive j s c))" and "fst (snd (Receive j s c)) = s"
    by (auto simp add: Receive_def r1 l Let_def r2 split: option.splits)
qed

text \<open>Nothing on its way and the connection open: the \<open>Read\<close> of the prefix waits until
  the deadline.\<close>

lemma Receive_idle:
  assumes "\<not> closed c" and "pending c = 0"
  shows "Receive j s c = (Returns (Some Receive_length_failed), s, c\<lparr>rx := []\<rparr>)"
proof -
  have "\<forall>ch\<in>set (rx c). ch = []" using assms(2) by (simp add: pending_def)
  then have "dropWhile (\<lambda>ch. ch = []) (rx c) = []" by simp
  then have "conn_Read (replicate 4 0) c
      = (0, Some (if peer_closed c then EOF else ErrTimeout), replicate 4 0, c\<lparr>rx := []\<rparr>)"
    using assms(1) by (simp add: conn_Read_def del: dropWhile_eq_Nil_conv)
  then show ?thesis by (simp add: Receive_def)
qed

text \<open>
  C2. A stream that delivers the prefix \<open>FF FF FF FF\<close> and then ends has ended before
  the declared \<open>L + 1\<close> bytes. \<open>Receive\<close> does not return a framing error there:
  \<open>msgLen\<close> wraps to 0, the read into the empty buffer returns \<open>(0, nil)\<close>, the length
  check passes and \<open>content[1:]\<close> panics. (For every other declared length the short
  stream is answered by a framing error, by \<open>Receive_short_prefix\<close> and
  \<open>Receive_short_body\<close>, and the envelope is unchanged whenever \<open>Receive\<close> does not
  succeed, by \<open>Receive_error_unchanged\<close>.)
\<close>

theorem Receive_max_length_panics:
  "Receive j NewReceiver (conn_with [[0xFF, 0xFF, 0xFF, 0xFF]] True)
     = (Panics, NewReceiver, conn_with [] True)"
  by (simp add: Receive_def conn_Read_def conn_with_def Let_def)

theorem Receive_max_length_panics_witness:
  "Receive ping_codec NewReceiver (conn_with [[0xFF, 0xFF, 0xFF, 0xFF]] True)
     = (Panics, NewReceiver, conn_with [] True)"
  using Receive_max_length_panics [of ping_codec] by simp

section \<open>The round trip through Send and Receive\<close>

lemma peer_view_Send:
  assumes "json_Marshal j e = Some message" and "\<not> closed c" and "\<not> peer_closed c"
    and "tx c = []"
  shows "peer_view cap (snd (Send j e c))
     = \<lparr>rx = chop cap (frame message), tx = rx c, closed = False, peer_closed = False\<rparr>"
  using assms by (simp add: Send_ok peer_view_def)

lemma frame_head:
  assumes "4 \<le> cap"
  shows "chop cap (frame m)
     = (PutUint32 (of_nat (length m)) @ take (cap - 4) (0x3A # m)) # chop cap (drop cap (frame m))"
proof -
  have "frame m \<noteq> []" by (simp add: frame_def PutUint32_def)
  then have "chop cap (frame m) = take cap (frame m) # chop cap (drop cap (frame m))"
    using assms by (intro chop_head) simp_all
  moreover have "take cap (frame m) = PutUint32 (of_nat (length m)) @ take (cap - 4) (0x3A # m)"
    using assms by (simp add: frame_def length_PutUint32)
  ultimately show ?thesis by simp
qed

text \<open>Where the round trip holds: a frame that the transport holds whole, with both
  deadlines ahead, is received, and the envelope stored has the five fields that the
  JSON library decodes from the payload.\<close>

lemma Receive_after_Send_fits:
  assumes "json_Marshal j e = Some message" and "0 < timeout e" and "0 < timeout r"
    and "\<not> closed c" and "\<not> peer_closed c" and "tx c = []"
    and "length (frame message) \<le> cap" and "cap < 2 ^ 32"
    and "json_Unmarshal j message = Some e'"
  shows "fst (Send j e c) = None"
    and "fst (Receive j r (peer_view cap (snd (Send j e c)))) = Returns None"
    and "same_envelope (fst (snd (Receive j r (peer_view cap (snd (Send j e c)))))) e'"
proof -
  have len: "length message < 2 ^ 32 - 1" "frame message \<noteq> []"
    using assms(7,8) by (simp_all add: frame_def length_PutUint32)
  have v: "peer_view cap (snd (Send j e c))
      = \<lparr>rx = [frame message], tx = rx c, closed = False, peer_closed = False\<rparr>"
    using assms peer_view_Send [of j e message c cap] len(2) by (simp add: chop_fits)
  show "fst (Send j e c) = None" using assms by (simp add: Send_ok)
  show "fst (Receive j r (peer_view cap (snd (Send j e c)))) = Returns None"
    and "same_envelope (fst (snd (Receive j r (peer_view cap (snd (Send j e c)))))) e'"
    unfolding v
    using Receive_frame [of "\<lparr>rx = [frame message], tx = rx c, closed = False,
        peer_closed = False\<rparr>" message "[]" j r] len(1) assms(9)
    by (simp_all add: same_envelope_def)
qed

text \<open>The stream keeps no boundaries between writes: a frame written in two pieces is
  received like a frame written at once, when both pieces are there.\<close>

lemma Receive_joined_writes:
  assumes "tx c = [p1, p2]" and "p1 @ p2 = frame m" and "\<not> peer_closed c"
    and "length (frame m) \<le> cap" and "cap < 2 ^ 32" and "json_Unmarshal j m = Some e'"
  shows "fst (Receive j r (peer_view cap c)) = Returns None"
    and "same_envelope (fst (snd (Receive j r (peer_view cap c)))) e'"
proof -
  have len: "length m < 2 ^ 32 - 1" "frame m \<noteq> []"
    using assms(4,5) by (simp_all add: frame_def length_PutUint32)
  have v: "peer_view cap c = \<lparr>rx = [frame m], tx = rx c, closed = False, peer_closed = closed c\<rparr>"
    using assms(1-4) len(2) by (simp add: peer_view_def chop_fits)
  show "fst (Receive j r (peer_view cap c)) = Returns None"
    and "same_envelope (fst (snd (Receive j r (peer_view cap c)))) e'"
    unfolding v
    using Receive_frame [of "\<lparr>rx = [frame m], tx = rx c, closed = False,
        peer_closed = closed c\<rparr>" m "[]" j r] len(1) assms(6)
    by (simp_all add: same_envelope_def)
qed

text \<open>
  C1. The round trip does not hold for every envelope whose payload is within
  \<open>maxLength\<close>. The frame that \<open>Send\<close> writes becomes available to the receiving end in
  groups of at most \<open>cap\<close> bytes (\<open>4 \<le> cap\<close>), and both deadlines are ahead. When the
  payload is \<open>cap\<close> bytes long or longer (and shorter than \<open>2 ^ 32 - 1\<close>), the single \<open>Read\<close>
  that \<open>Receive\<close> issues for the delimiter and the payload returns fewer than the
  declared \<open>L + 1\<close> bytes and \<open>Receive\<close> returns a framing error: so for a payload of
  1 MiB, which the default \<open>maxLength\<close> allows, on a transport holding 212992 bytes. When
  the payload is \<open>2 ^ 32 - 1\<close> bytes long, which a \<open>maxLength\<close> of \<open>2 ^ 32\<close> allows, the
  prefix is \<open>FF FF FF FF\<close>, \<open>msgLen = L + 1\<close> wraps to 0 and \<open>Receive\<close> panics. Either
  way the receiving envelope keeps its own fields instead of taking those of the
  envelope sent. (\<open>Receive_after_Send_fits\<close> is the round trip for the frames that the
  transport holds whole.)
\<close>

theorem Send_frame_refused:
  assumes "json_Marshal j e = Some message" and "0 < timeout e" and "0 < timeout r"
    and "\<not> closed c" and "\<not> peer_closed c" and "tx c = []" and "4 \<le> cap"
  shows "(cap \<le> length message \<and> length message < 2 ^ 32 - 1 \<longrightarrow>
            refuses (fst (Receive j r (peer_view cap (snd (Send j e c))))))
    \<and> (length message = 2 ^ 32 - 1 \<longrightarrow>
            fst (Receive j r (peer_view cap (snd (Send j e c)))) = Panics)
    \<and> (cap \<le> length message \<and> length message < 2 ^ 32 \<longrightarrow>
            fst (snd (Receive j r (peer_view cap (snd (Send j e c))))) = r)"
proof -
  define v where "v = peer_view cap (snd (Send j e c))"
  define tl where "tl = take (cap - 4) (0x3A # message)"
  have v: "\<not> closed v"
    "rx v = (PutUint32 (of_nat (length message)) @ tl) # chop cap (drop cap (frame message))"
    unfolding v_def tl_def
    using assms peer_view_Send [of j e message c cap] frame_head [of cap message]
    by simp_all
  have bound: "\<forall>ch\<in>set (rx v). length ch \<le> cap"
    unfolding v_def using assms peer_view_Send [of j e message c cap]
    by (auto dest: chop_bounded)
  have r1: "conn_Read (replicate 4 0) v
      = (4, None, PutUint32 (of_nat (length message)),
         v\<lparr>rx := (if tl = [] then chop cap (drop cap (frame message))
                  else tl # chop cap (drop cap (frame message)))\<rparr>)"
    using v by (intro Read_head4) (simp_all add: length_PutUint32)
  have u: "Uint32 (PutUint32 (of_nat (length message))) = Some (of_nat (length message))"
    using Uint32_PutUint32 [of "of_nat (length message)" "[]"] by simp
  have short: "refuses (fst (Receive j r v)) \<and> fst (snd (Receive j r v)) = r"
    if "cap \<le> length message" "length message < 2 ^ 32 - 1"
    using Receive_bounded [where j = j and s = r, OF bound r1 u] of_nat_length32 [OF that(2)]
      that(1) by simp
  have wrap: "fst (Receive j r v) = Panics" if "length message = 2 ^ 32 - 1"
  proof -
    have "(of_nat (length message) :: 32 word) = - 1" using that by simp
    then show ?thesis
      using Receive_wrap [OF v(1) v(2)] u by (simp add: length_PutUint32)
  qed
  have "fst (snd (Receive j r v)) = r" if "length message = 2 ^ 32 - 1"
    using wrap [OF that] Receive_error_unchanged [of j r v] by simp
  moreover have "length message < 2 ^ 32 - 1 \<or> length message = 2 ^ 32 - 1"
    if "length message < 2 ^ 32"
    using that by auto
  ultimately show ?thesis
    unfolding v_def [symmetric] using short wrap by blast
qed

theorem Send_frame_refused_witness:
  "int (length (replicate (2 ^ 20) (0x20 :: byte)))
       \<le> maxLength (NewSender ''ping'' None True False :: string communicator)
   \<and> int (length (replicate (2 ^ 20) (0x20 :: byte)))
       \<le> maxLength (NewReceiver :: string communicator)
   \<and> json_Marshal (big_codec (2 ^ 20)) (NewSender ''ping'' None True False)
       = Some (replicate (2 ^ 20) 0x20)
   \<and> json_Unmarshal (big_codec (2 ^ 20)) (replicate (2 ^ 20) 0x20)
       = Some (wire ''ping'' None (Some empty_Response) True False)
   \<and> same_envelope (wire ''ping'' None (Some empty_Response) True False)
       (NewSender ''ping'' None True False :: string communicator)
   \<and> refuses (fst (Receive (big_codec (2 ^ 20)) NewReceiver
        (peer_view 212992
           (snd (Send (big_codec (2 ^ 20)) (NewSender ''ping'' None True False)
              (conn_with [] False))))))
   \<and> fst (snd (Receive (big_codec (2 ^ 20)) NewReceiver
        (peer_view 212992
           (snd (Send (big_codec (2 ^ 20)) (NewSender ''ping'' None True False)
              (conn_with [] False))))))
       = NewReceiver
   \<and> int (length (replicate (2 ^ 32 - 1) (0x20 :: byte)))
       \<le> maxLength (Options (NewSender ''ping'' None True False :: string communicator)
            (2 ^ 32) (5 * 1000000000) True False)
   \<and> int (length (replicate (2 ^ 32 - 1) (0x20 :: byte)))
       \<le> maxLength (Options (NewReceiver :: string communicator)
            (2 ^ 32) (5 * 1000000000) True True)
   \<and> fst (Receive (big_codec (2 ^ 32 - 1)) (Options NewReceiver (2 ^ 32) (5 * 1000000000) True True)
        (peer_view 212992
           (snd (Send (big_codec (2 ^ 32 - 1))
              (Options (NewSender ''ping'' None True False) (2 ^ 32) (5 * 1000000000) True False)
              (conn_with [] False)))))
       = Panics"
  using Send_frame_refused [where j = "big_codec (2 ^ 20)"
      and e = "NewSender ''ping'' None True False" and message = "replicate (2 ^ 20) 0x20"
      and r = NewReceiver and c = "conn_with [] False" and cap = 212992]
    Send_frame_refused [where j = "big_codec (2 ^ 32 - 1)"
      and e = "Options (NewSender ''ping'' None True False) (2 ^ 32) (5 * 1000000000) True False"
      and message = "replicate (2 ^ 32 - 1) 0x20"
      and r = "Options NewReceiver (2 ^ 32) (5 * 1000000000) True True"
      and c = "conn_with [] False" and cap = 212992]
  by (simp add: big_codec_def table_codec_def wire_def same_envelope_def NewSender_def
      NewReceiver_def newCommunicator_def Options_def conn_with_def)

section \<open>What Receive does not check\<close>

text \<open>
  C5. \<open>Receive\<close> never consults \<open>maxLength\<close>: its outcome, the envelope it stores and
  the bytes it takes from the stream are the same for every value of \<open>maxLength\<close>; and
  a whole frame whose declared length exceeds \<open>maxLength\<close> is accepted like any other.
\<close>

theorem Receive_ignores_maxLength:
  "Receive j (s\<lparr>maxLength := m\<rparr>) c
     = (case Receive j s c of (out, s', c') \<Rightarrow> (out, s'\<lparr>maxLength := m\<rparr>, c'))
   \<and> (\<not> closed c \<and> rx c = frame p # rest \<and> length p < 2 ^ 32 - 1
        \<and> maxLength s < int (length p) \<and> json_Unmarshal j p = Some e
      \<longrightarrow> fst (Receive j s c) = Returns None \<and> same_envelope (fst (snd (Receive j s c))) e)"
proof
  show "Receive j (s\<lparr>maxLength := m\<rparr>) c
     = (case Receive j s c of (out, s', c') \<Rightarrow> (out, s'\<lparr>maxLength := m\<rparr>, c'))"
    by (simp add: Receive_def Let_def split: prod.splits option.splits)
next
  show "\<not> closed c \<and> rx c = frame p # rest \<and> length p < 2 ^ 32 - 1
        \<and> maxLength s < int (length p) \<and> json_Unmarshal j p = Some e
      \<longrightarrow> fst (Receive j s c) = Returns None \<and> same_envelope (fst (snd (Receive j s c))) e"
  proof
    assume a: "\<not> closed c \<and> rx c = frame p # rest \<and> length p < 2 ^ 32 - 1
        \<and> maxLength s < int (length p) \<and> json_Unmarshal j p = Some e"
    then show "fst (Receive j s c) = Returns None \<and> same_envelope (fst (snd (Receive j s c))) e"
      using Receive_frame [of c p rest j s] by (simp add: same_envelope_def)
  qed
qed

theorem Receive_ignores_maxLength_witness:
  "Receive ping_codec ((NewReceiver\<lparr>maxLength := 1\<rparr>)\<lparr>maxLength := 2 ^ 20\<rparr>)
      (conn_with [[0, 0, 0, 2, 0x3A, 0x7B, 0x7D]] False)
     = (case Receive ping_codec (NewReceiver\<lparr>maxLength := 1\<rparr>)
               (conn_with [[0, 0, 0, 2, 0x3A, 0x7B, 0x7D]] False)
        of (out, s', c') \<Rightarrow> (out, s'\<lparr>maxLength := 2 ^ 20\<rparr>, c'))
   \<and> maxLength (NewReceiver\<lparr>maxLength := 1\<rparr> :: string communicator)
       < int (length [0x7B :: byte, 0x7D])
   \<and> fst (Receive ping_codec (NewReceiver\<lparr>maxLength := 1\<rparr>)
        (conn_with [[0, 0, 0, 2, 0x3A, 0x7B, 0x7D]] False)) = Returns None
   \<and> same_envelope
         (fst (snd (Receive ping_codec (NewReceiver\<lparr>maxLength := 1\<rparr>)
            (conn_with [[0, 0, 0, 2, 0x3A, 0x7B, 0x7D]] False))))
         ping"
proof -
  have f: "frame [0x7B, 0x7D] = [0, 0, 0, 2, 0x3A, 0x7B, 0x7D]"
    by (simp add: frame_def PutUint32_def)
  have d: "json_Unmarshal ping_codec [0x7B, 0x7D] = Some ping"
    by (simp add: ping_codec_def sample_codec_def)
  show ?thesis
    using Receive_ignores_maxLength [where j = ping_codec
        and s = "NewReceiver\<lparr>maxLength := 1\<rparr>" and m = "2 ^ 20"
        and c = "conn_with [[0, 0, 0, 2, 0x3A, 0x7B, 0x7D]] False"
        and p = "[0x7B, 0x7D]" and rest = "[]" and e = ping]
    by (simp add: f d conn_with_def)
qed

lemma dropWhile_poke:
  "dropWhile (\<lambda>ch. ch = []) (poke k d xs) =
     (case dropWhile (\<lambda>ch. ch = []) xs of [] \<Rightarrow> [] | ch # rest \<Rightarrow> poke k d (ch # rest))"
  by (induction xs) (auto split: list.splits)

text \<open>The read of the payload: overwriting the first pending byte changes nothing but
  the first byte of what is read.\<close>

lemma Read_poke0:
  assumes "conn_Read buf c = (n, e, b, c')"
    and "conn_Read buf (c\<lparr>rx := poke 0 d (rx c)\<rparr>) = (n', e', b', c'')"
  shows "n' = n \<and> e' = e \<and> drop 1 b' = drop 1 b \<and> length b' = length b"
proof (cases "closed c \<or> buf = []")
  case True
  then show ?thesis using assms by (auto simp add: conn_Read_def split: if_splits)
next
  case False
  show ?thesis
  proof (cases "dropWhile (\<lambda>ch. ch = []) (rx c)")
    case Nil
    have d: "dropWhile (\<lambda>ch. ch = []) (poke 0 d (rx c)) = []"
      by (simp only: dropWhile_poke Nil list.case)
    have "conn_Read buf c = (0, Some (if peer_closed c then EOF else ErrTimeout), buf, c\<lparr>rx := []\<rparr>)"
      using False by (simp add: conn_Read_def Nil del: dropWhile_eq_Nil_conv)
    moreover have "conn_Read buf (c\<lparr>rx := poke 0 d (rx c)\<rparr>)
        = (0, Some (if peer_closed c then EOF else ErrTimeout), buf, c\<lparr>rx := []\<rparr>)"
      using False by (simp add: conn_Read_def d del: dropWhile_eq_Nil_conv)
    ultimately show ?thesis using assms by simp
  next
    case (Cons ch rest)
    then have ch: "ch \<noteq> []"
      by (metis (mono_tags, lifting) hd_dropWhile list.distinct(1) list.sel(1))
    have d: "dropWhile (\<lambda>ch. ch = []) (poke 0 d (rx c)) = ch[0 := d] # rest"
      using ch by (simp add: dropWhile_poke Cons del: dropWhile_eq_Nil_conv)
    have k: "0 < length buf" using False by simp
    define got where "got = take (length buf) ch"
    have t: "take (length buf) (ch[0 := d]) = got[0 := d]"
      using k by (simp add: take_update_swap got_def)
    have dr: "drop (length buf) (ch[0 := d]) = drop (length buf) ch"
      using k by simp
    have g: "got \<noteq> []" using ch k by (simp add: got_def)
    have r: "conn_Read buf c = (length got, None, got @ drop (length got) buf,
        c\<lparr>rx := (if drop (length buf) ch = [] then rest else drop (length buf) ch # rest)\<rparr>)"
      using False by (simp add: conn_Read_def Cons Let_def got_def del: dropWhile_eq_Nil_conv)
    have r': "conn_Read buf (c\<lparr>rx := poke 0 d (rx c)\<rparr>) = (length got, None,
        got[0 := d] @ drop (length got) buf,
        c\<lparr>rx := (if drop (length buf) ch = [] then rest else drop (length buf) ch # rest)\<rparr>)"
      using False by (simp add: conn_Read_def d Let_def t dr del: dropWhile_eq_Nil_conv)
    have eqs: "n = length got" "n' = length got" "e = None" "e' = None"
      "b = got @ drop (length got) buf" "b' = got[0 := d] @ drop (length got) buf"
      using assms r r' by auto
    have "drop 1 (got[0 := d] @ drop (length got) buf) = drop 1 (got @ drop (length got) buf)"
      using g by (cases got) simp_all
    then show ?thesis unfolding eqs by simp
  qed
qed

text \<open>The read of the prefix: overwriting byte 4 of the stream leaves the four bytes
  read as they are and overwrites the first byte that is pending afterwards.\<close>

lemma Read_poke4:
  assumes "conn_Read (replicate 4 0) c = (n, e, b, c1)"
    and "conn_Read (replicate 4 0) (c\<lparr>rx := poke 4 d (rx c)\<rparr>) = (n', e', b', c1')"
  shows "n' = n \<and> e' = e \<and> (n = 4 \<longrightarrow> b' = b \<and> c1' = c1\<lparr>rx := poke 0 d (rx c1)\<rparr>)"
proof (cases "closed c")
  case True
  then show ?thesis using assms by (auto simp add: conn_Read_def)
next
  case False
  show ?thesis
  proof (cases "dropWhile (\<lambda>ch. ch = []) (rx c)")
    case Nil
    have d: "dropWhile (\<lambda>ch. ch = []) (poke 4 d (rx c)) = []"
      by (simp only: dropWhile_poke Nil list.case)
    have "conn_Read (replicate 4 0) c
        = (0, Some (if peer_closed c then EOF else ErrTimeout), replicate 4 0, c\<lparr>rx := []\<rparr>)"
      using False by (simp add: conn_Read_def Nil del: dropWhile_eq_Nil_conv)
    moreover have "conn_Read (replicate 4 0) (c\<lparr>rx := poke 4 d (rx c)\<rparr>)
        = (0, Some (if peer_closed c then EOF else ErrTimeout), replicate 4 0, c\<lparr>rx := []\<rparr>)"
      using False by (simp add: conn_Read_def d del: dropWhile_eq_Nil_conv)
    ultimately show ?thesis using assms by auto
  next
    case (Cons ch rest)
    then have ch: "ch \<noteq> []"
      by (metis (mono_tags, lifting) hd_dropWhile list.distinct(1) list.sel(1))
    have d: "dropWhile (\<lambda>ch. ch = []) (poke 4 d (rx c)) = poke 4 d (ch # rest)"
      by (simp only: dropWhile_poke Cons list.case)
    show ?thesis
    proof (cases "4 < length ch")
      case True
      have r: "conn_Read (replicate 4 0) c = (4, None, take 4 ch, c\<lparr>rx := drop 4 ch # rest\<rparr>)"
        using False True by (simp add: conn_Read_def Cons Let_def del: dropWhile_eq_Nil_conv)
      have "drop 4 (ch[4 := d]) = (drop 4 ch)[0 := d]"
        by (simp add: drop_update_swap)
      then have r': "conn_Read (replicate 4 0) (c\<lparr>rx := poke 4 d (rx c)\<rparr>)
          = (4, None, take 4 ch, c\<lparr>rx := (drop 4 ch)[0 := d] # rest\<rparr>)"
        using False True by (simp add: conn_Read_def d Let_def del: dropWhile_eq_Nil_conv)
      show ?thesis using assms r r' True by auto
    next
      case short: False
      have r: "conn_Read (replicate 4 0) c
          = (length ch, None, ch @ drop (length ch) (replicate 4 0), c\<lparr>rx := rest\<rparr>)"
        using False short by (simp add: conn_Read_def Cons Let_def del: dropWhile_eq_Nil_conv)
      have r': "conn_Read (replicate 4 0) (c\<lparr>rx := poke 4 d (rx c)\<rparr>)
          = (length ch, None, ch @ drop (length ch) (replicate 4 0),
             c\<lparr>rx := poke (4 - length ch) d rest\<rparr>)"
        using False short ch by (simp add: conn_Read_def d Let_def del: dropWhile_eq_Nil_conv)
      show ?thesis using assms r r' by auto
    qed
  qed
qed

text \<open>
  C10. \<open>Receive\<close> never looks at the delimiter: overwriting byte 4 of the incoming stream
  (the fifth byte) with any value \<open>d\<close> changes neither the outcome of \<open>Receive\<close> nor the
  envelope it stores.
\<close>

theorem Receive_ignores_delimiter:
  "fst (Receive j s (c\<lparr>rx := poke 4 d (rx c)\<rparr>)) = fst (Receive j s c)
   \<and> fst (snd (Receive j s (c\<lparr>rx := poke 4 d (rx c)\<rparr>))) = fst (snd (Receive j s c))"
proof -
  obtain n e b c1 where r1: "conn_Read (replicate 4 0) c = (n, e, b, c1)"
    by (metis prod_cases4)
  obtain n' e' b' c1' where
    r1': "conn_Read (replicate 4 0) (c\<lparr>rx := poke 4 d (rx c)\<rparr>) = (n', e', b', c1')"
    by (metis prod_cases4)
  note p4 = Read_poke4 [OF r1 r1']
  show ?thesis
  proof (cases "n \<noteq> 4 \<or> e \<noteq> None")
    case True
    then show ?thesis using p4 by (auto simp add: Receive_def r1 r1')
  next
    case False
    then have same: "n = 4" "e = None" "n' = 4" "e' = None" "b' = b"
      "c1' = c1\<lparr>rx := poke 0 d (rx c1)\<rparr>"
      using p4 by auto
    show ?thesis
    proof (cases "Uint32 b")
      case None
      then show ?thesis by (simp add: Receive_def r1 r1' same)
    next
      case (Some l)
      obtain n2 e2 b2 c2 where r2: "conn_Read (replicate (unat (l + 1)) 0) c1 = (n2, e2, b2, c2)"
        by (metis prod_cases4)
      obtain n2' e2' b2' c2' where r2': "conn_Read (replicate (unat (l + 1)) 0)
          (c1\<lparr>rx := poke 0 d (rx c1)\<rparr>) = (n2', e2', b2', c2')"
        by (metis prod_cases4)
      have p0: "n2' = n2" "e2' = e2" "drop 1 b2' = drop 1 b2" "length b2' = length b2"
        using Read_poke0 [OF r2 r2'] by auto
      show ?thesis
        using r1 r1' r2 r2' p0 Some unfolding Receive_def same
        by (auto simp add: Let_def split: option.splits)
    qed
  qed
qed

theorem Receive_ignores_delimiter_witness:
  "fst (Receive ping_codec NewReceiver (conn_with [[0, 0, 0, 2, 0x2C, 0x7B, 0x7D]] False))
     = fst (Receive ping_codec NewReceiver (conn_with [[0, 0, 0, 2, 0x3A, 0x7B, 0x7D]] False))
   \<and> fst (snd (Receive ping_codec NewReceiver
        (conn_with [[0, 0, 0, 2, 0x2C, 0x7B, 0x7D]] False)))
     = fst (snd (Receive ping_codec NewReceiver
        (conn_with [[0, 0, 0, 2, 0x3A, 0x7B, 0x7D]] False)))
   \<and> fst (Receive ping_codec NewReceiver (conn_with [[0, 0, 0, 2, 0x3A, 0x7B, 0x7D]] False))
     = Returns None"
proof -
  have f: "frame [0x7B, 0x7D] = [0, 0, 0, 2, 0x3A, 0x7B, 0x7D]"
    by (simp add: frame_def PutUint32_def)
  have p: "(conn_with [[0, 0, 0, 2, 0x3A, 0x7B, 0x7D]] False)
      \<lparr>rx := poke 4 0x2C (rx (conn_with [[0, 0, 0, 2, 0x3A, 0x7B, 0x7D]] False))\<rparr>
      = conn_with [[0, 0, 0, 2, 0x2C, 0x7B, 0x7D]] False"
    by (simp add: conn_with_def)
  have r: "fst (Receive ping_codec (NewReceiver :: string communicator)
        (conn_with [[0, 0, 0, 2, 0x3A, 0x7B, 0x7D]] False)) = Returns None"
    using Receive_frame [of "conn_with [[0, 0, 0, 2, 0x3A, 0x7B, 0x7D]] False" "[0x7B, 0x7D]" "[]"
        ping_codec NewReceiver]
    by (simp add: f ping_codec_def sample_codec_def conn_with_def)
  show ?thesis
    using Receive_ignores_delimiter [where j = ping_codec and s = NewReceiver
        and c = "conn_with [[0, 0, 0, 2, 0x3A, 0x7B, 0x7D]] False" and d = "0x2C"] r
    unfolding p by simp
qed

section \<open>The session of one connection\<close>

lemma Loop_body_ok:
  assumes "Receive j NewReceiver c = (Returns None, r, c1)"
  shows "Loop_body j handler c =
     (if Close r then Break else Continue,
      if Respond r then snd (Send j (SetResponse r (handler (Cmd r) (Args r))) c1) else c1)"
  using assms
  by (simp add: Loop_body_def Let_def GetCmd_def GetArgs_def ShouldRespond_def ShouldClose_def)

lemma Loop_body_failed:
  assumes "fst (Receive j NewReceiver c) \<noteq> Returns None"
  shows "Loop_body j handler c =
     (if fst (Receive j NewReceiver c) = Panics then Crash else Break,
      snd (snd (Receive j NewReceiver c)))"
  using assms
  by (auto simp add: Loop_body_def split: prod.splits outcome.splits option.splits)

lemma Receive_received:
  assumes "\<not> closed c" and "rx c = frame m # rest" and "length m < 2 ^ 32 - 1"
    and "json_Unmarshal j m = Some e"
  shows "Receive j NewReceiver c = (Returns None, received e, c\<lparr>rx := rest\<rparr>)"
  using Receive_frame [of c m rest j NewReceiver] assms by (simp add: received_def)

text \<open>One pass of the loop over a whole frame that asks for a response.\<close>

lemma Loop_body_respond:
  assumes "\<not> closed c" and "\<not> peer_closed c" and "rx c = frame m # rest"
    and "length m < 2 ^ 32 - 1" and "json_Unmarshal j m = Some e" and "Respond e"
    and "json_Marshal j (SetResponse (received e) (handler (Cmd e) (Args e))) = Some p"
  shows "Loop_body j handler c
     = (if Close e then Break else Continue, c\<lparr>rx := rest, tx := tx c @ [frame p]\<rparr>)"
proof -
  have r: "Receive j NewReceiver c = (Returns None, received e, c\<lparr>rx := rest\<rparr>)"
    using assms by (simp add: Receive_received)
  have f: "Cmd (received e) = Cmd e" "Args (received e) = Args e"
    "Respond (received e) = Respond e" "Close (received e) = Close e"
    by (simp_all add: received_def)
  have "Send j (SetResponse (received e) (handler (Cmd e) (Args e))) (c\<lparr>rx := rest\<rparr>)
      = (None, c\<lparr>rx := rest\<rparr>\<lparr>tx := tx (c\<lparr>rx := rest\<rparr>) @ [frame p]\<rparr>)"
    using assms by (intro Send_ok) simp_all
  then show ?thesis
    using assms(6) by (simp add: Loop_body_ok [OF r] f)
qed

text \<open>
  C3. The handler loop: when \<open>Receive\<close> has decoded an envelope \<open>r\<close>, the handler is called
  with its command and arguments, a response is sent if and only if \<open>Respond r\<close>, and the
  loop ends if \<open>Close r\<close> and goes on to the next envelope otherwise. So on a connection
  holding two requests, both asking for a response, the first with \<open>Close\<close> unset and the
  second with \<open>Close\<close> set, the first pass leaves the connection open with one response
  written, and the whole session writes exactly two responses and then closes.
\<close>

theorem session_loop:
  "(Receive j NewReceiver c = (Returns None, r, c1) \<longrightarrow>
      Loop j handler c =
        (let c2 = (if Respond r then snd (Send j (SetResponse r (handler (Cmd r) (Args r))) c1)
                   else c1)
         in if Close r then (Break, c2) else Loop j handler c2))
   \<and> (\<not> closed c \<and> \<not> peer_closed c \<and> rx c = [frame m1, frame m2]
        \<and> length m1 < 2 ^ 32 - 1 \<and> length m2 < 2 ^ 32 - 1
        \<and> json_Unmarshal j m1 = Some e1 \<and> Respond e1 \<and> \<not> Close e1
        \<and> json_Unmarshal j m2 = Some e2 \<and> Respond e2 \<and> Close e2
        \<and> json_Marshal j (SetResponse (received e1) (handler (Cmd e1) (Args e1))) = Some p1
        \<and> json_Marshal j (SetResponse (received e2) (handler (Cmd e2) (Args e2))) = Some p2
      \<longrightarrow> Loop_body j handler c = (Continue, c\<lparr>rx := [frame m2], tx := tx c @ [frame p1]\<rparr>)
        \<and> newUnixRequestHandler j handler c
            = (Break, c\<lparr>rx := [], tx := tx c @ [frame p1, frame p2], closed := True\<rparr>))"
proof (intro conjI impI)
  assume "Receive j NewReceiver c = (Returns None, r, c1)"
  then show "Loop j handler c =
        (let c2 = (if Respond r then snd (Send j (SetResponse r (handler (Cmd r) (Args r))) c1)
                   else c1)
         in if Close r then (Break, c2) else Loop j handler c2)"
    by (subst Loop.simps) (simp add: Loop_body_ok Let_def)
next
  assume a: "\<not> closed c \<and> \<not> peer_closed c \<and> rx c = [frame m1, frame m2]
        \<and> length m1 < 2 ^ 32 - 1 \<and> length m2 < 2 ^ 32 - 1
        \<and> json_Unmarshal j m1 = Some e1 \<and> Respond e1 \<and> \<not> Close e1
        \<and> json_Unmarshal j m2 = Some e2 \<and> Respond e2 \<and> Close e2
        \<and> json_Marshal j (SetResponse (received e1) (handler (Cmd e1) (Args e1))) = Some p1
        \<and> json_Marshal j (SetResponse (received e2) (handler (Cmd e2) (Args e2))) = Some p2"
  define c2 where "c2 = c\<lparr>rx := [frame m2], tx := tx c @ [frame p1]\<rparr>"
  have b1: "Loop_body j handler c = (Continue, c2)"
    using a Loop_body_respond [of c m1 "[frame m2]" j e1 handler p1] by (simp add: c2_def)
  have b2: "Loop_body j handler c2 = (Break, c2\<lparr>rx := [], tx := tx c2 @ [frame p2]\<rparr>)"
    using a Loop_body_respond [of c2 m2 "[]" j e2 handler p2] by (simp add: c2_def)
  have "Loop j handler c = Loop j handler c2"
    by (subst Loop.simps) (simp add: b1)
  also have "\<dots> = (Break, c2\<lparr>rx := [], tx := tx c2 @ [frame p2]\<rparr>)"
    by (subst Loop.simps) (simp add: b2)
  finally have l: "Loop j handler c = (Break, c2\<lparr>rx := [], tx := tx c2 @ [frame p2]\<rparr>)" .
  show "Loop_body j handler c = (Continue, c\<lparr>rx := [frame m2], tx := tx c @ [frame p1]\<rparr>)"
    using b1 by (simp add: c2_def)
  show "newUnixRequestHandler j handler c
      = (Break, c\<lparr>rx := [], tx := tx c @ [frame p1, frame p2], closed := True\<rparr>)"
    by (simp add: newUnixRequestHandler_def l conn_Close_def c2_def)
qed

theorem session_loop_witness:
  "Loop_body session_codec echo_handler
      (conn_with [[0, 0, 0, 1, 0x3A, 1], [0, 0, 0, 1, 0x3A, 2]] False)
     = (Continue, \<lparr>rx = [[0, 0, 0, 1, 0x3A, 2]], tx = [[0, 0, 0, 1, 0x3A, 2]], closed = False,
          peer_closed = False\<rparr>)
   \<and> newUnixRequestHandler session_codec echo_handler
      (conn_with [[0, 0, 0, 1, 0x3A, 1], [0, 0, 0, 1, 0x3A, 2]] False)
     = (Break, \<lparr>rx = [], tx = [[0, 0, 0, 1, 0x3A, 2], [0, 0, 0, 1, 0x3A, 2]], closed = True,
          peer_closed = False\<rparr>)"
proof -
  have f: "frame [1] = [0, 0, 0, 1, 0x3A, 1]" "frame [2] = [0, 0, 0, 1, 0x3A, 2]"
    by (simp_all add: frame_def PutUint32_def)
  show ?thesis
    using session_loop [where j = session_codec and handler = echo_handler
        and c = "conn_with [[0, 0, 0, 1, 0x3A, 1], [0, 0, 0, 1, 0x3A, 2]] False"
        and ?m1.0 = "[1]" and ?m2.0 = "[2]" and ?e1.0 = "envelope ''echo'' None True False"
        and ?e2.0 = "envelope ''quit'' None True True" and ?p1.0 = "[2]" and ?p2.0 = "[2]"]
    by (simp add: f session_codec_def sample_codec_def conn_with_def envelope_def
        echo_handler_def received_def SetResponse_def NewReceiver_def newCommunicator_def
        empty_Response_def STATUS_OK_def STATUS_FAIL_def)
qed

text \<open>The task and the function it runs: a task that has ended has run
  \<open>newUnixRequestHandler\<close> to its return, and a task that waits and is not written to
  again returns at the deadline of its \<open>Receive\<close> and closes the connection then.\<close>

lemma newUnixRequestHandler_task:
  "newUnixRequestHandler j handler c =
     (case server_task j handler c of
        (Ended f, c') \<Rightarrow> (f, c')
      | (Waiting, c') \<Rightarrow> (Break, conn_Close (c'\<lparr>rx := []\<rparr>)))"
proof (induction j handler c rule: server_task.induct)
  case (1 j handler c)
  show ?case
  proof (cases "\<not> closed c \<and> \<not> peer_closed c \<and> pending c = 0")
    case True
    then have "Loop_body j handler c = (Break, c\<lparr>rx := []\<rparr>)"
      using Loop_body_failed [of j c handler] by (simp add: Receive_idle)
    then have "Loop j handler c = (Break, c\<lparr>rx := []\<rparr>)"
      by (subst Loop.simps) simp
    moreover have "server_task j handler c = (Waiting, c)"
      using True by (subst server_task.simps) simp
    ultimately show ?thesis by (simp add: newUnixRequestHandler_def)
  next
    case False
    show ?thesis
    proof (cases "fst (Loop_body j handler c) = Continue")
      case True
      have "Loop j handler c = Loop j handler (snd (Loop_body j handler c))"
        by (subst Loop.simps) (simp add: True Let_def)
      moreover have "server_task j handler c = server_task j handler (snd (Loop_body j handler c))"
        using False True by (subst server_task.simps) (auto simp add: Let_def)
      ultimately show ?thesis
        using 1 [OF False refl True] by (simp add: newUnixRequestHandler_def)
    next
      case stop: False
      have "Loop j handler c = Loop_body j handler c"
        by (subst Loop.simps) (simp add: stop Let_def)
      moreover have "server_task j handler c
          = (Ended (fst (Loop_body j handler c)), conn_Close (snd (Loop_body j handler c)))"
        using False stop by (subst server_task.simps) (auto simp add: Let_def)
      ultimately show ?thesis
        by (simp add: newUnixRequestHandler_def split: prod.splits)
    qed
  qed
qed

text \<open>The server's task on a connection that holds one request asking for a response:
  it answers, and then it ends and closes the connection if the request says \<open>Close\<close>,
  and waits for the next request otherwise.\<close>

lemma server_task_one_request:
  assumes "\<not> closed c" and "\<not> peer_closed c" and "rx c = [frame m]"
    and "length m < 2 ^ 32 - 1" and "json_Unmarshal j m = Some e" and "Respond e"
    and "json_Marshal j (SetResponse (received e) (handler (Cmd e) (Args e))) = Some p"
  shows "server_task j handler c
     = (if Close e then (Ended Break, c\<lparr>rx := [], tx := tx c @ [frame p], closed := True\<rparr>)
        else (Waiting, c\<lparr>rx := [], tx := tx c @ [frame p]\<rparr>))"
proof -
  define c2 where "c2 = c\<lparr>rx := [], tx := tx c @ [frame p]\<rparr>"
  have b1: "Loop_body j handler c = (if Close e then Break else Continue, c2)"
    using assms Loop_body_respond [of c m "[]" j e handler p] by (simp add: c2_def)
  have busy: "pending c \<noteq> 0"
    using assms(3) by (simp add: pending_def frame_def)
  have idle: "server_task j handler c2 = (Waiting, c2)"
    using assms(1,2) by (subst server_task.simps) (simp add: c2_def pending_def)
  show ?thesis
  proof (cases "Close e")
    case True
    then show ?thesis
      using busy by (subst server_task.simps) (simp add: b1 conn_Close_def c2_def)
  next
    case False
    then have "server_task j handler c = server_task j handler c2"
      using busy by (subst server_task.simps) (simp add: b1)
    then show ?thesis using False idle by (simp add: c2_def)
  qed
qed

section \<open>The client\<close>

text \<open>
  C7 (as amended). \<open>reconnect\<close>, the first step of every \<open>Send\<close> of the client, keeps the
  stored connection if and only if there is one and the current time and the stored
  timestamp, each rounded down to whole seconds by \<open>Unix()\<close>, differ by less than 5.
  Otherwise it dials: on success the new connection and the current time replace the
  stored ones and the superseded connection is left as it was, not closed; on failure
  the client is unchanged. In real time: a connection is never kept at an age of 5
  seconds or more and always kept at an age of at most 4 seconds; in between it depends
  on the rounding, as the counterexample shows at an age of 4.000000001 seconds.
\<close>

theorem reconnect_policy:
  "(conn u \<noteq> None \<and> Unix (Now w) - Unix (conntime u) < 5 \<longrightarrow> reconnect u w = (None, u, w))
   \<and> (\<not> (conn u \<noteq> None \<and> Unix (Now w) - Unix (conntime u) < 5)
        \<and> unixSockPath u \<in> set (listeners w) \<longrightarrow>
      reconnect u w
        = (None, u\<lparr>conn := Some (next_conn w), conntime := Now w\<rparr>,
           w\<lparr>conns := (conns w)(next_conn w := fresh_conn), next_conn := Suc (next_conn w)\<rparr>)
      \<and> (\<forall>h. conn u = Some h \<and> h \<noteq> next_conn w \<longrightarrow>
             conns (snd (snd (reconnect u w))) h = conns w h))
   \<and> (\<not> (conn u \<noteq> None \<and> Unix (Now w) - Unix (conntime u) < 5)
        \<and> unixSockPath u \<notin> set (listeners w) \<longrightarrow>
      reconnect u w = (Some reconnect_failed, u, w))
   \<and> fst (snd (client_Send j peer u cmd args respond close w)) = fst (snd (reconnect u w))
   \<and> (Unix (Now w) - Unix (conntime u) < 5 \<longrightarrow> Now w - conntime u < 5 * 1000000000)
   \<and> (Now w - conntime u \<le> 4 * 1000000000 \<longrightarrow> Unix (Now w) - Unix (conntime u) < 5)"
proof (intro conjI impI)
  assume "Unix (Now w) - Unix (conntime u) < 5"
  then show "Now w - conntime u < 5 * 1000000000"
    unfolding Unix_def by linarith
next
  assume "Now w - conntime u \<le> 4 * 1000000000"
  then show "Unix (Now w) - Unix (conntime u) < 5"
    unfolding Unix_def by linarith
next
  show "fst (snd (client_Send j peer u cmd args respond close w)) = fst (snd (reconnect u w))"
    by (simp add: client_Send_def Let_def split: prod.splits option.splits outcome.splits)
qed (auto simp add: reconnect_def Dial_def Now_def)

theorem reconnect_policy_witness:
  "reconnect (client_since 1000000000) (world_at 5999999999 [''/tmp/unix.sock''])
     = (None, client_since 1000000000, world_at 5999999999 [''/tmp/unix.sock''])
   \<and> conn (fst (snd (reconnect (client_since 1000000000)
        (world_at 6000000000 [''/tmp/unix.sock''])))) = Some 1
   \<and> conntime (fst (snd (reconnect (client_since 1000000000)
        (world_at 6000000000 [''/tmp/unix.sock''])))) = 6000000000
   \<and> conns (snd (snd (reconnect (client_since 1000000000)
        (world_at 6000000000 [''/tmp/unix.sock''])))) 0
      = conns (world_at 6000000000 [''/tmp/unix.sock'']) 0
   \<and> \<not> closed (conns (snd (snd (reconnect (client_since 1000000000)
        (world_at 6000000000 [''/tmp/unix.sock''])))) 0)
   \<and> reconnect (client_since 1000000000) (world_at 6000000000 [])
     = (Some reconnect_failed, client_since 1000000000, world_at 6000000000 [])"
  using reconnect_policy [where u = "client_since 1000000000"
      and w = "world_at 5999999999 [''/tmp/unix.sock'']"
      and j = ping_codec and peer = "\<lambda>c. c" and cmd = "''ping''"
      and args = None and respond = True and close = True]
    reconnect_policy [where u = "client_since 1000000000"
      and w = "world_at 6000000000 [''/tmp/unix.sock'']"
      and j = ping_codec and peer = "\<lambda>c. c" and cmd = "''ping''"
      and args = None and respond = True and close = True]
    reconnect_policy [where u = "client_since 1000000000"
      and w = "world_at 6000000000 []"
      and j = ping_codec and peer = "\<lambda>c. c" and cmd = "''ping''"
      and args = None and respond = True and close = True]
  by (simp add: client_since_def new_client_def client_New_def world_at_def Unix_def Now_def
      fresh_conn_def)

theorem reconnect_age_counterexample:
  "conn (client_since 999999999) = Some 0
   \<and> Now (world_at 5000000000 [''/tmp/unix.sock'']) - conntime (client_since 999999999)
       < 5 * 1000000000
   \<and> fst (reconnect (client_since 999999999) (world_at 5000000000 [''/tmp/unix.sock''])) = None
   \<and> conn (fst (snd (reconnect (client_since 999999999)
        (world_at 5000000000 [''/tmp/unix.sock''])))) = Some 1"
  by (simp add: reconnect_def Dial_def client_since_def new_client_def client_New_def
      world_at_def Unix_def Now_def)

lemma client_Send_frame:
  assumes "reconnect u w = (None, u1, w1)" and "conn u1 = Some h"
    and "Send j (Options (NewSender cmd args True close) (c_maxLength u1) (c_timeout u1)
           True close) (conns w1 h) = (None, c1)"
    and "\<not> closed (peer c1)" and "rx (peer c1) = frame m # rest"
    and "length m < 2 ^ 32 - 1" and "json_Unmarshal j m = Some e"
  shows "client_Send j peer u cmd args True close w
      = ((Response e, Returns None), u1, w1\<lparr>conns := (conns w1)(h := (peer c1)\<lparr>rx := rest\<rparr>)\<rparr>)"
proof -
  have "Receive j (Options (NewSender cmd args True close) (c_maxLength u1)
                  (c_timeout u1) True close) (peer c1)
      = (Returns None,
         (Options (NewSender cmd args True close) (c_maxLength u1) (c_timeout u1) True close)
           \<lparr>Cmd := Cmd e, Args := Args e, Response := Response e, Respond := Respond e,
            Close := Close e\<rparr>,
         (peer c1)\<lparr>rx := rest\<rparr>)"
    using assms Receive_frame [of "peer c1" m rest j] by simp
  then show ?thesis
    using assms by (simp add: client_Send_def Let_def GetResponse_def)
qed

text \<open>
  C8. Once \<open>reconnect\<close> has succeeded and the frame is written: with \<open>respond\<close> unset,
  \<open>Send\<close> returns at once with no response and no error; with \<open>respond\<close> set it calls
  \<open>Receive\<close> once and returns the decoded response, or no response and the error of
  \<open>Receive\<close>. When the peer has answered with a whole frame, exactly that frame is
  taken from the stream and its response is returned.
\<close>

theorem client_Send_response:
  assumes "reconnect u w = (None, u1, w1)" and "conn u1 = Some h"
    and "Send j (Options (NewSender cmd args respond close) (c_maxLength u1) (c_timeout u1)
           respond close) (conns w1 h) = (None, c1)"
  shows "(\<not> respond \<longrightarrow>
        client_Send j peer u cmd args respond close w
          = ((None, Returns None), u1, w1\<lparr>conns := (conns w1)(h := c1)\<rparr>))
    \<and> (respond \<longrightarrow>
        client_Send j peer u cmd args respond close w
          = (case Receive j (Options (NewSender cmd args respond close) (c_maxLength u1)
                  (c_timeout u1) respond close) (peer c1) of
               (Returns None, msg', c2) \<Rightarrow>
                 ((Response msg', Returns None), u1, w1\<lparr>conns := (conns w1)(h := c2)\<rparr>)
             | (Returns (Some err), msg', c2) \<Rightarrow>
                 ((None, Returns (Some (Client_receive_failed err))), u1,
                  w1\<lparr>conns := (conns w1)(h := c2)\<rparr>)
             | (Panics, msg', c2) \<Rightarrow>
                 ((None, Panics), u1, w1\<lparr>conns := (conns w1)(h := c2)\<rparr>)))
    \<and> (respond \<and> \<not> closed (peer c1) \<and> rx (peer c1) = frame m # rest
          \<and> length m < 2 ^ 32 - 1 \<and> json_Unmarshal j m = Some e \<longrightarrow>
        fst (client_Send j peer u cmd args respond close w) = (Response e, Returns None)
        \<and> rx (conns (snd (snd (client_Send j peer u cmd args respond close w))) h) = rest)"
proof (intro conjI impI)
  assume "\<not> respond"
  then show "client_Send j peer u cmd args respond close w
          = ((None, Returns None), u1, w1\<lparr>conns := (conns w1)(h := c1)\<rparr>)"
    using assms by (simp add: client_Send_def Let_def)
next
  assume "respond"
  then show "client_Send j peer u cmd args respond close w
          = (case Receive j (Options (NewSender cmd args respond close) (c_maxLength u1)
                  (c_timeout u1) respond close) (peer c1) of
               (Returns None, msg', c2) \<Rightarrow>
                 ((Response msg', Returns None), u1, w1\<lparr>conns := (conns w1)(h := c2)\<rparr>)
             | (Returns (Some err), msg', c2) \<Rightarrow>
                 ((None, Returns (Some (Client_receive_failed err))), u1,
                  w1\<lparr>conns := (conns w1)(h := c2)\<rparr>)
             | (Panics, msg', c2) \<Rightarrow>
                 ((None, Panics), u1, w1\<lparr>conns := (conns w1)(h := c2)\<rparr>))"
    using assms
    by (simp add: client_Send_def Let_def GetResponse_def
        split: prod.splits outcome.splits option.splits)
next
  assume a: "respond \<and> \<not> closed (peer c1) \<and> rx (peer c1) = frame m # rest
          \<and> length m < 2 ^ 32 - 1 \<and> json_Unmarshal j m = Some e"
  then have "client_Send j peer u cmd args respond close w
      = ((Response e, Returns None), u1, w1\<lparr>conns := (conns w1)(h := (peer c1)\<lparr>rx := rest\<rparr>)\<rparr>)"
    using assms client_Send_frame [of u w u1 w1 h j cmd args close c1 peer m rest e] by simp
  then show "fst (client_Send j peer u cmd args respond close w) = (Response e, Returns None)"
    and "rx (conns (snd (snd (client_Send j peer u cmd args respond close w))) h) = rest"
    by simp_all
qed

theorem client_Send_response_witness:
  "fst (client_Send echo_codec (server_peer 64 echo_codec echo_handler) new_client
        ''echo'' None False True (world_at 0 [''/tmp/unix.sock'']))
     = (None, Returns None)
   \<and> fst (client_Send echo_codec (server_peer 64 echo_codec echo_handler) new_client
        ''echo'' None True True (world_at 0 [''/tmp/unix.sock'']))
     = (Some echo_response, Returns None)
   \<and> rx (conns (snd (snd (client_Send echo_codec (server_peer 64 echo_codec echo_handler)
        new_client ''echo'' None True True (world_at 0 [''/tmp/unix.sock''])))) 1) = []"
proof -
  define u where "u = new_client"
  define w where "w = world_at 0 [''/tmp/unix.sock'']"
  define u1 where "u1 = u\<lparr>conn := Some 1, conntime := 0\<rparr>"
  define w1 where "w1 = w\<lparr>conns := (conns w)(1 := fresh_conn), next_conn := 2\<rparr>"
  define c1 where "c1 = fresh_conn\<lparr>tx := [frame [1]]\<rparr>"
  define v where "v = \<lparr>rx = [frame [1]], tx = [], closed = False, peer_closed = False\<rparr>"
  have rc: "reconnect u w = (None, u1, w1)"
    by (simp add: reconnect_def Dial_def Now_def u_def w_def u1_def w1_def new_client_def
        client_New_def world_at_def)
  have h: "conn u1 = Some 1" by (simp add: u1_def)
  have sd: "Send echo_codec (Options (NewSender ''echo'' None respond True) (c_maxLength u1)
      (c_timeout u1) respond True) (conns w1 1) = (None, c1)" for respond
    using Send_ok [of echo_codec "Options (NewSender ''echo'' None respond True) (c_maxLength u1)
        (c_timeout u1) respond True" "[1]" fresh_conn]
    by (simp add: echo_codec_def sample_codec_def Options_def NewSender_def newCommunicator_def
        w1_def c1_def fresh_conn_def)
  have f: "frame [1] \<noteq> []" "length (frame [1]) \<le> 64" "frame [2] \<noteq> []"
    "length (frame [2]) \<le> 64"
    by (simp_all add: frame_def length_PutUint32)
  have pv: "peer_view 64 c1 = v"
    using f by (simp add: peer_view_def c1_def fresh_conn_def v_def chop_fits)
  have "server_task echo_codec echo_handler v
      = (Ended Break, v\<lparr>rx := [], tx := tx v @ [frame [2]], closed := True\<rparr>)"
    using server_task_one_request [where c = v and m = "[1]" and j = echo_codec
        and e = "envelope ''echo'' None True True" and handler = echo_handler and p = "[2]"]
    by (simp add: v_def echo_codec_def sample_codec_def envelope_def echo_handler_def
        SetResponse_def received_def empty_Response_def STATUS_OK_def)
  then have sp: "server_peer 64 echo_codec echo_handler c1
      = \<lparr>rx = [frame [2]], tx = [], closed = False, peer_closed = True\<rparr>"
    using f by (simp add: server_peer_def pv) (simp add: peer_view_def v_def chop_fits)
  have dec: "json_Unmarshal echo_codec [2] = Some (envelope ''echo'' (Some echo_response) True True)"
    by (simp add: echo_codec_def sample_codec_def)
  note t1 = client_Send_response [OF rc h sd [of False],
      where peer = "server_peer 64 echo_codec echo_handler" and m = "[2]" and rest = "[]"
        and e = "envelope ''echo'' (Some echo_response) True True", THEN conjunct1]
  note t2 = client_Send_response [OF rc h sd [of True],
      where peer = "server_peer 64 echo_codec echo_handler" and m = "[2]" and rest = "[]"
        and e = "envelope ''echo'' (Some echo_response) True True", THEN conjunct2,
      THEN conjunct2]
  show ?thesis
    unfolding u_def [symmetric] w_def [symmetric]
    using t1 t2 by (simp add: sp dec envelope_def)
qed

section \<open>A request and its answer\<close>

lemma same_envelope_NewSender:
  "same_envelope (Options (NewSender cmd args respond close) ml t respond close)
     (wire cmd args (Some empty_Response) respond close)"
  by (simp add: same_envelope_def Options_def NewSender_def newCommunicator_def wire_def)

text \<open>
  One exchange on a connection on which nothing is on its way, with a server task at
  the other end: the client's \<open>Send\<close> writes the request, the task receives it, calls
  the handler and writes the response, and the client's \<open>Receive\<close> returns what the
  handler returned, whatever it is. The JSON library is any codec that writes exported
  fields only and carries the two envelopes, the request and the response; each frame
  is held whole by the transport; the deadline is ahead.
\<close>

lemma exchange_answered:
  assumes rc: "reconnect u w = (None, u1, w1)" and h: "conn u1 = Some h"
    and quiet: "conns w1 h = fresh_conn" and t: "0 < c_timeout u"
    and ex: "exported_only j"
    and m1: "json_Marshal j (wire cmd args (Some empty_Response) True close) = Some m1"
    and d1: "json_Unmarshal j m1 = Some e1"
    and s1: "same_envelope e1 (wire cmd args (Some empty_Response) True close)"
    and m2: "json_Marshal j (wire cmd args (handler cmd args) True close) = Some m2"
    and d2: "json_Unmarshal j m2 = Some e2"
    and s2: "same_envelope e2 (wire cmd args (handler cmd args) True close)"
    and fits: "length (frame m1) \<le> cap" "length (frame m2) \<le> cap" "cap < 2 ^ 32"
  shows "client_Send j (server_peer cap j handler) u cmd args True close w
     = ((handler cmd args, Returns None), u1,
        w1\<lparr>conns := (conns w1)(h := fresh_conn\<lparr>peer_closed := close\<rparr>)\<rparr>)"
proof -
  define c1 where "c1 = fresh_conn\<lparr>tx := tx fresh_conn @ [frame m1]\<rparr>"
  define request where
    "request = Options (NewSender cmd args True close) (c_maxLength u1) (c_timeout u1) True close"
  have len: "length m1 < 2 ^ 32 - 1" "length m2 < 2 ^ 32 - 1" "frame m1 \<noteq> []" "frame m2 \<noteq> []"
    using fits by (simp_all add: frame_def length_PutUint32)
  have e1: "Cmd e1 = cmd" "Args e1 = args" "Respond e1" "Close e1 = close"
    "Response e1 = Some empty_Response"
    using s1 by (simp_all add: same_envelope_def wire_def)
  have "json_Marshal j request = Some m1"
    using ex m1 same_envelope_NewSender [of cmd args True close "c_maxLength u1" "c_timeout u1"]
    unfolding request_def exported_only_def by metis
  then have "Send j request fresh_conn = (None, c1)"
    unfolding c1_def by (intro Send_ok) (simp_all add: fresh_conn_def)
  then have sd: "Send j (Options (NewSender cmd args True close) (c_maxLength u1) (c_timeout u1)
      True close) (conns w1 h) = (None, c1)"
    by (simp add: quiet request_def)
  have v: "peer_view cap c1 = \<lparr>rx = [frame m1], tx = [], closed = False, peer_closed = False\<rparr>"
    using fits(1) len(3) by (simp add: peer_view_def c1_def fresh_conn_def chop_fits)
  have "same_envelope (SetResponse (received e1) (handler (Cmd e1) (Args e1)))
      (wire cmd args (handler cmd args) True close)"
    using e1 by (simp add: same_envelope_def SetResponse_def received_def wire_def)
  then have reply: "json_Marshal j (SetResponse (received e1) (handler (Cmd e1) (Args e1))) = Some m2"
    using ex m2 unfolding exported_only_def by metis
  have st: "server_task j handler (peer_view cap c1)
      = (if Close e1 then (Ended Break, (peer_view cap c1)\<lparr>rx := [],
             tx := tx (peer_view cap c1) @ [frame m2], closed := True\<rparr>)
         else (Waiting, (peer_view cap c1)\<lparr>rx := [], tx := tx (peer_view cap c1) @ [frame m2]\<rparr>))"
    using len(1) d1 e1(3) reply
    by (intro server_task_one_request [where m = m1]) (simp_all add: v)
  have "server_peer cap j handler c1
      = peer_view cap (snd (if Close e1 then (Ended Break, (peer_view cap c1)\<lparr>rx := [],
             tx := tx (peer_view cap c1) @ [frame m2], closed := True\<rparr>)
         else (Waiting, (peer_view cap c1)\<lparr>rx := [], tx := tx (peer_view cap c1) @ [frame m2]\<rparr>)))"
    by (simp only: server_peer_def st)
  then have sp: "server_peer cap j handler c1
      = \<lparr>rx = [frame m2], tx = [], closed = False, peer_closed = close\<rparr>"
    using fits(2) len(4) e1(4) by (simp add: v) (simp add: peer_view_def chop_fits)
  have "client_Send j (server_peer cap j handler) u cmd args True close w
      = ((Response e2, Returns None), u1,
         w1\<lparr>conns := (conns w1)(h := (server_peer cap j handler c1)\<lparr>rx := []\<rparr>)\<rparr>)"
    using rc h sd len(2) d2 by (intro client_Send_frame) (simp_all add: sp)
  moreover have "Response e2 = handler cmd args"
    using s2 by (simp add: same_envelope_def wire_def)
  ultimately show ?thesis by (simp add: sp fresh_conn_def)
qed

text \<open>After an exchange with \<open>close\<close> unset the server's task waits on the open
  connection: a second \<open>Send\<close> of the client, which keeps the connection, is answered
  on it.\<close>

lemma second_Send_answered:
  assumes "conn u = None" and "unixSockPath u \<in> set (listeners w)" and "0 < c_timeout u"
    and "exported_only j"
    and "json_Marshal j (wire cmd args (Some empty_Response) True False) = Some m1"
    and "json_Unmarshal j m1 = Some e1"
    and "same_envelope e1 (wire cmd args (Some empty_Response) True False)"
    and "json_Marshal j (wire cmd args (handler cmd args) True False) = Some m2"
    and "json_Unmarshal j m2 = Some e2"
    and "same_envelope e2 (wire cmd args (handler cmd args) True False)"
    and "length (frame m1) \<le> cap" "length (frame m2) \<le> cap" "cap < 2 ^ 32"
    and "client_Send j (server_peer cap j handler) u cmd args True False w = (x, u', w')"
  shows "x = (handler cmd args, Returns None)"
    and "conn u' = Some (next_conn w)" and "next_conn w' = Suc (next_conn w)"
    and "fst (client_Send j (server_peer cap j handler) u' cmd args True False w')
       = (handler cmd args, Returns None)"
proof -
  define u1 where "u1 = u\<lparr>conn := Some (next_conn w), conntime := Now w\<rparr>"
  define w1 where "w1 = w\<lparr>conns := (conns w)(next_conn w := fresh_conn),
      next_conn := Suc (next_conn w)\<rparr>"
  have rc: "reconnect u w = (None, u1, w1)"
    using assms(1,2) by (simp add: reconnect_def Dial_def u1_def w1_def Now_def)
  have first: "client_Send j (server_peer cap j handler) u cmd args True False w
     = ((handler cmd args, Returns None), u1,
        w1\<lparr>conns := (conns w1)(next_conn w := fresh_conn\<lparr>peer_closed := False\<rparr>)\<rparr>)"
    by (rule exchange_answered [where handler = handler and cmd = cmd and args = args
          and close = False, OF rc _ _ assms(3-13)])
      (simp_all add: u1_def w1_def)
  then have r: "x = (handler cmd args, Returns None)" "u' = u1"
    "w' = w1\<lparr>conns := (conns w1)(next_conn w := fresh_conn\<lparr>peer_closed := False\<rparr>)\<rparr>"
    using assms(14) by simp_all
  show "x = (handler cmd args, Returns None)" by (rule r(1))
  show "conn u' = Some (next_conn w)" by (simp add: r u1_def)
  show "next_conn w' = Suc (next_conn w)" by (simp add: r w1_def)
  have rc2: "reconnect u' w' = (None, u', w')"
    by (simp add: r reconnect_def u1_def w1_def Now_def)
  have t: "0 < c_timeout u'" using assms(3) by (simp add: r u1_def)
  have "client_Send j (server_peer cap j handler) u' cmd args True False w'
     = ((handler cmd args, Returns None), u',
        w'\<lparr>conns := (conns w')(next_conn w := fresh_conn\<lparr>peer_closed := False\<rparr>)\<rparr>)"
    by (rule exchange_answered [where handler = handler and cmd = cmd and args = args
          and close = False, OF rc2 _ _ t assms(4-13)])
      (simp_all add: r u1_def w1_def fresh_conn_def)
  then show "fst (client_Send j (server_peer cap j handler) u' cmd args True False w')
       = (handler cmd args, Returns None)"
    by simp
qed



section \<open>The status of a response\<close>




end
